theory Spec2Isabelle
  imports Main
begin

chapter \<open>The live-call relay bot (index.js)\<close>

text \<open>
  A shallow embedding of \<^verbatim>\<open>src/index.js\<close>: the string helpers, the row
  callback of the polling loop in \<^verbatim>\<open>main\<close>, the audio worker
  \<^verbatim>\<open>processCallWorker\<close> and the login loop \<^verbatim>\<open>loginToDashboard\<close>.

  Conventions of the model.
  \<^item> A JavaScript string is a \<^typ>\<open>string\<close>, one \<^typ>\<open>char\<close> per code unit. The
    helpers below give the ASCII behaviour of \<^verbatim>\<open>trim\<close>, \<^verbatim>\<open>toUpperCase\<close>,
    \<^verbatim>\<open>toLowerCase\<close> and the regular-expression classes \<^verbatim>\<open>\d\<close> and \<^verbatim>\<open>\s\<close>;
    code units outside ASCII are kept as they are and are neither white space nor digits.
  \<^item> Everything the program does to the outside world (HTTP requests, the browser, ffmpeg,
    the file system) is a step whose outcome is read from an environment record, and whose
    occurrence is appended to an event log, so every theorem holds for all outcomes.
  \<^item> An exception is a value: a function that can throw returns the state reached together
    with the exception, if any.
\<close>

section \<open>Strings\<close>

text \<open>White space as \<^verbatim>\<open>String.prototype.trim\<close> and \<^verbatim>\<open>\s\<close> see it, within ASCII:
  TAB, LF, VT, FF, CR and the space.\<close>

definition isWhiteSpace :: "char \<Rightarrow> bool" where
  "isWhiteSpace c =
     (c = CHR 0x09 \<or> c = CHR 0x0A \<or> c = CHR 0x0B \<or> c = CHR 0x0C \<or> c = CHR 0x0D \<or> c = CHR '' '')"

text \<open>The class \<^verbatim>\<open>\d\<close>: the digits 0 to 9.\<close>

definition isDigit :: "char \<Rightarrow> bool" where
  "isDigit c = (48 \<le> (of_char c :: nat) \<and> (of_char c :: nat) \<le> 57)"

definition toUpperChar :: "char \<Rightarrow> char" where
  "toUpperChar c =
     (if 97 \<le> (of_char c :: nat) \<and> (of_char c :: nat) \<le> 122
      then char_of ((of_char c :: nat) - 32) else c)"

definition toUpperCase :: "string \<Rightarrow> string" where
  "toUpperCase s = map toUpperChar s"

definition toLowerChar :: "char \<Rightarrow> char" where
  "toLowerChar c =
     (if 65 \<le> (of_char c :: nat) \<and> (of_char c :: nat) \<le> 90
      then char_of ((of_char c :: nat) + 32) else c)"

definition toLowerCase :: "string \<Rightarrow> string" where
  "toLowerCase s = map toLowerChar s"

definition trim :: "string \<Rightarrow> string" where
  "trim s = rev (dropWhile isWhiteSpace (rev (dropWhile isWhiteSpace s)))"

text \<open>\<^verbatim>\<open>s.includes(sub)\<close>: \<^verbatim>\<open>sub\<close> occurs in \<^verbatim>\<open>s\<close> as a contiguous block.\<close>

definition startsWith :: "string \<Rightarrow> string \<Rightarrow> bool" where
  "startsWith s sub = (take (length sub) s = sub)"

fun str_includes :: "string \<Rightarrow> string \<Rightarrow> bool" where
  "str_includes [] sub = (sub = [])"
| "str_includes (c # cs) sub = (startsWith (c # cs) sub \<or> str_includes cs sub)"

text \<open>\<^verbatim>\<open>s.split(sep)\<close> for a one-character separator, generalised to a class of
  separators: the pieces between separators, empty pieces included, so that the empty
  string splits into one empty piece.\<close>

fun split_by :: "(char \<Rightarrow> bool) \<Rightarrow> string \<Rightarrow> string list" where
  "split_by P [] = [[]]"
| "split_by P (c # cs) =
     (if P c then [] # split_by P cs
      else (case split_by P cs of [] \<Rightarrow> [[c]] | p # ps \<Rightarrow> (c # p) # ps))"

text \<open>\<^verbatim>\<open>text.split(' ')\<close> and \<^verbatim>\<open>parts.join(' ')\<close>.\<close>

definition split_space :: "string \<Rightarrow> string list" where
  "split_space s = split_by (\<lambda>c. c = CHR '' '') s"

fun join_space :: "string list \<Rightarrow> string" where
  "join_space [] = []"
| "join_space [p] = p"
| "join_space (p # q # ps) = p @ CHR '' '' # join_space (q # ps)"

subsection \<open>maskNumber\<close>

text \<open>
  \<^verbatim>\<open>const numStr = String(number).trim();
  return numStr.length > 7
      ? `${numStr.substring(0, 3)}***${numStr.substring(numStr.length - 4)}` : numStr;\<close>
  The argument is a string at both call sites, so \<^verbatim>\<open>String(number)\<close> is the argument.
\<close>

definition maskNumber :: "string \<Rightarrow> string" where
  "maskNumber num =
     (let numStr = trim num
      in if length numStr > 7
         then take 3 numStr @ ''***'' @ drop (length numStr - 4) numStr
         else numStr)"

subsection \<open>extractCountryFromTermination\<close>

text \<open>The test of the loop: \<^verbatim>\<open>['MOBILE', 'FIXED'].includes(part.toUpperCase()) || /\d/.test(part)\<close>.\<close>

definition isStopPart :: "string \<Rightarrow> bool" where
  "isStopPart part = (toUpperCase part \<in> set [''MOBILE'', ''FIXED''] \<or> list_ex isDigit part)"

text \<open>The \<^verbatim>\<open>for (const part of parts)\<close> loop with its \<^verbatim>\<open>break\<close>; the first argument is
  \<^verbatim>\<open>countryParts\<close>.\<close>

fun collectCountryParts :: "string list \<Rightarrow> string list \<Rightarrow> string list" where
  "collectCountryParts countryParts [] = countryParts"
| "collectCountryParts countryParts (part # parts) =
     (if isStopPart part then countryParts
      else collectCountryParts (countryParts @ [part]) parts)"

definition extractCountryFromTermination :: "string \<Rightarrow> string" where
  "extractCountryFromTermination text =
     (let parts = split_space text;
          countryParts = collectCountryParts [] parts
      in if length countryParts > 0 then join_space countryParts else text)"

text \<open>The country of a row, as \<^verbatim>\<open>main\<close> computes it from the text of column 0:
  \<^verbatim>\<open>extractCountryFromTermination($(columns[0]).text().trim())\<close>.\<close>

definition countryOfColumn :: "string \<Rightarrow> string" where
  "countryOfColumn text = extractCountryFromTermination (trim text)"

subsection \<open>Country extraction as the specification words it\<close>

text \<open>The specification speaks of white-space-separated tokens. \<open>whitespace_tokens\<close> are
  the non-empty pieces between white-space characters, and \<open>country_extraction_spec\<close> is
  the rule of the specification read literally: the leading tokens before the first stop
  token, joined by single spaces, or the whole trimmed text when there are none.\<close>

definition whitespace_tokens :: "string \<Rightarrow> string list" where
  "whitespace_tokens s = filter (\<lambda>w. w \<noteq> []) (split_by isWhiteSpace s)"

definition country_extraction_spec :: "string \<Rightarrow> string" where
  "country_extraction_spec text =
     (let accepted = takeWhile (\<lambda>tok. \<not> isStopPart tok) (whitespace_tokens text)
      in if accepted = [] then trim text else join_space accepted)"

section \<open>The polling loop of main\<close>

subsection \<open>Rows and call data\<close>

text \<open>What the row callback reads of a table row: the text of its \<^verbatim>\<open>td\<close> cells in
  document order, and the \<^verbatim>\<open>onclick\<close> attributes of the \<^verbatim>\<open>button\<close> elements
  inside the row that carry one.\<close>

record table_row =
  cells :: "string list"
  button_onclicks :: "string list"

text \<open>\<^verbatim>\<open>callData\<close>; \<^verbatim>\<open>audioUrl\<close> is \<open>None\<close> while the property is undefined.\<close>

record call_data =
  country :: string
  number :: string
  cliNumber :: string
  audioUrl :: "string option"

subsection \<open>The Play handler pattern\<close>

text \<open>
  \<^verbatim>\<open>onclickAttr.match(/Play\(['"]([^'"]+)['"],\s*['"]([^'"]+)['"]\)/)\<close>.
  \<open>quotedGroup\<close> matches \<^verbatim>\<open>['"]([^'"]+)['"]\<close> at the head of its input and returns the
  group with the rest of the input. The group is a non-empty run of characters other than
  quotes and must be followed by a quote, so the longest run is the only candidate; the
  same holds for \<^verbatim>\<open>\s*\<close>, which is followed by a quote. \<open>matchPlayHere\<close> matches the
  whole pattern at the head of its input and \<open>matchPlay\<close> tries every position from the
  left, as an unanchored pattern does; the result holds the two groups of the first match
  (\<^verbatim>\<open>did\<close> and \<^verbatim>\<open>uuid\<close>) and is \<open>None\<close> when \<^verbatim>\<open>match\<close> returns null.
\<close>

definition isQuote :: "char \<Rightarrow> bool" where
  "isQuote c = (c = CHR 0x27 \<or> c = CHR 0x22)"

definition quotedGroup :: "string \<Rightarrow> (string \<times> string) option" where
  "quotedGroup s =
     (case s of
        [] \<Rightarrow> None
      | q # rest \<Rightarrow>
          if isQuote q then
            (let g = takeWhile (\<lambda>c. \<not> isQuote c) rest;
                 r = dropWhile (\<lambda>c. \<not> isQuote c) rest
             in if g \<noteq> [] \<and> r \<noteq> [] then Some (g, tl r) else None)
          else None)"

definition matchPlayHere :: "string \<Rightarrow> (string \<times> string) option" where
  "matchPlayHere s =
     (if startsWith s ''Play('' then
        (case quotedGroup (drop 5 s) of
           None \<Rightarrow> None
         | Some (did, r1) \<Rightarrow>
             (case r1 of
                [] \<Rightarrow> None
              | c # r2 \<Rightarrow>
                  if c = CHR '','' then
                    (case quotedGroup (dropWhile isWhiteSpace r2) of
                       None \<Rightarrow> None
                     | Some (uuid, r3) \<Rightarrow>
                         (case r3 of
                            [] \<Rightarrow> None
                          | d # r4 \<Rightarrow> if d = CHR '')'' then Some (did, uuid) else None))
                  else None))
      else None)"

fun matchPlay :: "string \<Rightarrow> (string \<times> string) option" where
  "matchPlay [] = None"
| "matchPlay (c # cs) =
     (case matchPlayHere (c # cs) of Some m \<Rightarrow> Some m | None \<Rightarrow> matchPlay cs)"

subsection \<open>What the callback computes from a row\<close>

text \<open>\<^verbatim>\<open>$(columns[2]).text().trim()\<close>, the key of the row.\<close>

definition rowCliNumber :: "table_row \<Rightarrow> string" where
  "rowCliNumber row = trim (cells row ! 2)"

text \<open>\<^verbatim>\<open>$(row).find("button[onclick*='Play']")\<close>: the buttons whose handler contains
  \<^verbatim>\<open>Play\<close>.\<close>

definition playButton :: "table_row \<Rightarrow> string list" where
  "playButton row = filter (\<lambda>onclick. str_includes onclick ''Play'') (button_onclicks row)"

text \<open>\<^verbatim>\<open>$(columns[columns.length - 1]).text().trim().toUpperCase()\<close>.\<close>

definition callStatus :: "table_row \<Rightarrow> string" where
  "callStatus row = toUpperCase (trim (cells row ! (length (cells row) - 1)))"

definition rowCallData :: "table_row \<Rightarrow> call_data" where
  "rowCallData row =
     \<lparr> country = countryOfColumn (cells row ! 0),
       number = trim (cells row ! 1),
       cliNumber = rowCliNumber row,
       audioUrl = None \<rparr>"

definition soundUrl :: "string \<Rightarrow> string \<Rightarrow> string" where
  "soundUrl did uuid =
     ''https://www.orangecarrier.com/live/calls/sound?did='' @ did @ ''&uuid='' @ uuid"

subsection \<open>The state of the loop and the dispatches\<close>

text \<open>
  A dispatch is one of the two calls the callback makes for a row.
  \<open>InstantNotification\<close> is the call
  \<^verbatim>\<open>sendInstantNotification(callData).then(id => setTimeout(() => processCallWorker(callData, cookies, page, id), 20000))\<close>:
  the detected notification together with the audio worker chained to it; the worker is
  started nowhere else. \<open>FailedCallNotification\<close> is the call
  \<^verbatim>\<open>sendFailedCallNotification(callData)\<close>. A dispatch records that the call was made;
  what the second call then does is \<open>sendFailedCallNotification\<close> below.
\<close>

datatype dispatch =
    InstantNotification call_data
  | FailedCallNotification call_data

fun dispatchedCli :: "dispatch \<Rightarrow> string" where
  "dispatchedCli (InstantNotification callData) = cliNumber callData"
| "dispatchedCli (FailedCallNotification callData) = cliNumber callData"

text \<open>\<open>processedCalls\<close> is the \<^verbatim>\<open>Set\<close> of that name; \<open>dispatched\<close> lists the dispatches
  made so far and \<open>slept\<close> the delays of the loop, in milliseconds.\<close>

record poller =
  processedCalls :: "string set"
  dispatched :: "dispatch list"
  slept :: "nat list"

definition initialPoller :: poller where
  "initialPoller = \<lparr> processedCalls = {}, dispatched = [], slept = [] \<rparr>"

text \<open>Both dispatch calls start an asynchronous function, which returns a promise rather
  than throwing. So that nothing depends on this, a dispatch may also throw into the
  callback: the flag \<open>throws\<close> says whether it does, and the second component of the
  result says whether an exception left the callback. A dispatch that throws is still
  entered in \<open>dispatched\<close>, since it may have acted before it threw.\<close>

definition dispatchCall :: "bool \<Rightarrow> dispatch \<Rightarrow> poller \<Rightarrow> poller \<times> bool" where
  "dispatchCall throws d st = (st\<lparr>dispatched := dispatched st @ [d]\<rparr>, throws)"

subsection \<open>The name escapeMarkdownV2 and the failed-call notification\<close>

text \<open>
  \<^verbatim>\<open>index.js\<close> calls \<^verbatim>\<open>escapeMarkdownV2\<close> in the message of
  \<^verbatim>\<open>sendFailedCallNotification\<close> (lines 148 to 151) and in the caption of
  \<^verbatim>\<open>processCallWorker\<close> (lines 310 to 313), and neither defines nor imports it. The file
  is a module, so the name is unbound and evaluating a call of it throws a
  \<^verbatim>\<open>ReferenceError\<close>: \<open>None\<close> is the unbound name.
\<close>

definition escapeMarkdownV2 :: "(string \<Rightarrow> string) option" where
  "escapeMarkdownV2 = None"

text \<open>The requests made to the messaging service.\<close>

datatype telegram_request = FailedCallMessage call_data

text \<open>
  \<^verbatim>\<open>sendFailedCallNotification\<close>, lines 141 to 164. The message template is evaluated
  before the \<^verbatim>\<open>try\<close> block that holds the request, so an exception of the template
  leaves the function: the result is the list of requests made and whether the promise of
  the call is rejected. (A request that fails is caught and logged, and the promise is
  fulfilled.)
\<close>

definition sendFailedCallNotification :: "call_data \<Rightarrow> telegram_request list \<times> bool" where
  "sendFailedCallNotification callData =
     (case escapeMarkdownV2 of
        None \<Rightarrow> ([], True)
      | Some escape \<Rightarrow> ([FailedCallMessage callData], False))"

subsection \<open>The row callback\<close>

text \<open>The body of \<^verbatim>\<open>.each((i, row) => { ... })\<close>, lines 366 to 400.\<close>

definition rowCallback :: "bool \<Rightarrow> table_row \<Rightarrow> poller \<Rightarrow> poller \<times> bool" where
  "rowCallback throws row st =
     (if length (cells row) > 2 then
        (let callId = rowCliNumber row
         in if callId \<notin> processedCalls st then
              (let st1 = st\<lparr>processedCalls := insert callId (processedCalls st)\<rparr>
               in if playButton row \<noteq> [] \<and> callStatus row \<noteq> ''FAILED'' then
                    (case matchPlay (hd (playButton row)) of
                       Some (did, uuid) \<Rightarrow>
                         dispatchCall throws
                           (InstantNotification
                              ((rowCallData row)\<lparr>audioUrl := Some (soundUrl did uuid)\<rparr>)) st1
                     | None \<Rightarrow> (st1, False))
                  else if callStatus row = ''FAILED'' then
                    dispatchCall throws (FailedCallNotification (rowCallData row)) st1
                  else (st1, False))
            else (st, False))
      else (st, False))"

subsection \<open>One tick and the loop\<close>

text \<open>\<^verbatim>\<open>.each\<close> over the selected rows: an exception leaving the callback ends the
  iteration. Every row comes with the flag of its dispatch.\<close>

fun eachRow :: "(table_row \<times> bool) list \<Rightarrow> poller \<Rightarrow> poller \<times> bool" where
  "eachRow [] st = (st, False)"
| "eachRow ((row, throws) # rows) st =
     (case rowCallback throws row st of
        (st', True) \<Rightarrow> (st', True)
      | (st', False) \<Rightarrow> eachRow rows st')"

text \<open>What a tick finds: \<^verbatim>\<open>page.content()\<close> fails, or the page has these rows. The
  periodic reload of the page acts on the loop only through what the page shows at the
  next tick, and the ticks of a run are arbitrary.\<close>

datatype tick_input = ContentFails | PageRows "(table_row \<times> bool) list"

text \<open>The body of \<^verbatim>\<open>while (true)\<close>: the \<^verbatim>\<open>try\<close> block, the \<^verbatim>\<open>catch\<close> block with its
  pause of 15 s, and the pause of 100 ms.\<close>

definition tick :: "tick_input \<Rightarrow> poller \<Rightarrow> poller" where
  "tick page st =
     (case (case page of ContentFails \<Rightarrow> (st, True) | PageRows rows \<Rightarrow> eachRow rows st) of
        (st', True) \<Rightarrow> st'\<lparr>slept := slept st' @ [15000, 100]\<rparr>
      | (st', False) \<Rightarrow> st'\<lparr>slept := slept st' @ [100]\<rparr>)"

text \<open>The loop never ends by itself. A run is observed through its ticks so far: \<open>monitor\<close>
  is the state after the given ticks, and a property of every \<open>monitor ticks st\<close> holds at
  every moment of the run.\<close>

fun monitor :: "tick_input list \<Rightarrow> poller \<Rightarrow> poller" where
  "monitor [] st = st"
| "monitor (page # ticks) st = monitor ticks (tick page st)"

text \<open>The invariant of the loop: no key is dispatched twice, and every dispatched key is in
  the store.\<close>

definition dispatchedOnce :: "poller \<Rightarrow> bool" where
  "dispatchedOnce st =
     (distinct (map dispatchedCli (dispatched st))
      \<and> set (map dispatchedCli (dispatched st)) \<subseteq> processedCalls st)"

section \<open>The audio worker processCallWorker\<close>

subsection \<open>Environment, state and events\<close>

text \<open>
  The outcomes of what the worker asks of the outside world. \<open>caption_ok\<close> stands for
  the evaluation of the caption template inside the \<^verbatim>\<open>try\<close> block, which calls
  \<^verbatim>\<open>escapeMarkdownV2\<close>. The worker is defined for both outcomes; \<open>asShipped\<close> below
  fixes the outcome that the file as it stands has.
\<close>

record worker_env =
  now :: nat                \<comment> \<open>\<^verbatim>\<open>Date.now()\<close>\<close>
  dirname :: string         \<comment> \<open>\<^verbatim>\<open>__dirname\<close>\<close>
  fetch_ok :: bool          \<comment> \<open>\<^verbatim>\<open>axios.get(audioUrl, ...)\<close> resolves\<close>
  write_ok :: bool          \<comment> \<open>\<^verbatim>\<open>fs.writeFileSync\<close> returns\<close>
  transcode_ok :: bool      \<comment> \<open>ffmpeg emits \<^verbatim>\<open>end\<close> rather than \<^verbatim>\<open>error\<close>\<close>
  caption_ok :: bool        \<comment> \<open>the caption is built without an exception\<close>
  send_ok :: bool           \<comment> \<open>the \<^verbatim>\<open>sendAudio\<close> request resolves\<close>
  delete_ok :: bool         \<comment> \<open>the \<^verbatim>\<open>deleteMessage\<close> request resolves\<close>
  unlink_raw_ok :: bool     \<comment> \<open>\<^verbatim>\<open>fs.unlinkSync(filePath)\<close> is permitted\<close>
  unlink_mp3_ok :: bool     \<comment> \<open>\<^verbatim>\<open>fs.unlinkSync(filePathMp3)\<close> is permitted\<close>

datatype worker_event =
    HttpGet string                 \<comment> \<open>the recording was requested from this URL\<close>
  | FileWritten string             \<comment> \<open>the raw recording was written to this path\<close>
  | Converted string string        \<comment> \<open>ffmpeg converted the first path into the second\<close>
  | FFmpegError                    \<comment> \<open>the error handler of ffmpeg logged and rejected\<close>
  | AudioSent string bool          \<comment> \<open>\<^verbatim>\<open>sendAudio\<close> was requested for this path; success\<close>
  | MessageDeleted nat bool        \<comment> \<open>\<^verbatim>\<open>deleteMessage\<close> was requested for this id; success\<close>
  | Unlinked string                \<comment> \<open>\<^verbatim>\<open>fs.unlinkSync\<close> removed this path\<close>
  | TemporaryFilesDeleted          \<comment> \<open>the last log line of the \<^verbatim>\<open>try\<close> block\<close>
  | ErrorLogged                    \<comment> \<open>the log line of the \<^verbatim>\<open>catch\<close> block\<close>

record worker_state =
  files :: "string set"
  events :: "worker_event list"

definition emit :: "worker_event \<Rightarrow> worker_state \<Rightarrow> worker_state" where
  "emit e st = st\<lparr>events := events st @ [e]\<rparr>"

subsection \<open>File names\<close>

fun decimal :: "nat \<Rightarrow> string" where
  "decimal n =
     (if n < 10 then [''0123456789'' ! n]
      else decimal (n div 10) @ [''0123456789'' ! (n mod 10)])"

text \<open>\<^verbatim>\<open>s.replace(pattern, replacement)\<close> with a string pattern: the first occurrence only.\<close>

fun replaceFirst :: "string \<Rightarrow> string \<Rightarrow> string \<Rightarrow> string" where
  "replaceFirst pat rep [] = (if pat = [] then rep else [])"
| "replaceFirst pat rep (c # cs) =
     (if startsWith (c # cs) pat then rep @ drop (length pat) (c # cs)
      else c # replaceFirst pat rep cs)"

text \<open>\<^verbatim>\<open>`call_${Date.now()}_${cliNumber}.wav`\<close> joined to \<^verbatim>\<open>__dirname\<close>, for names
  that \<^verbatim>\<open>path.join\<close> leaves as they are, and the path of the converted file,
  \<^verbatim>\<open>filePath.replace(".wav", ".mp3")\<close>.\<close>

definition wavPath :: "worker_env \<Rightarrow> call_data \<Rightarrow> string" where
  "wavPath env callData =
     dirname env @ ''/'' @ ''call_'' @ decimal (now env) @ ''_'' @ cliNumber callData @ ''.wav''"

definition mp3Path :: "worker_env \<Rightarrow> call_data \<Rightarrow> string" where
  "mp3Path env callData = replaceFirst ''.wav'' ''.mp3'' (wavPath env callData)"

subsection \<open>The helpers that catch their own errors\<close>

text \<open>\<^verbatim>\<open>sendAudioToTelegramGroup\<close> and \<^verbatim>\<open>deleteTelegramMessage\<close> wrap their request in
  \<^verbatim>\<open>try\<close>/\<^verbatim>\<open>catch\<close>, log, and return \<^verbatim>\<open>true\<close> or \<^verbatim>\<open>false\<close>: a failed request
  is a result, not an exception.\<close>

definition sendAudioToTelegramGroup :: "worker_env \<Rightarrow> string \<Rightarrow> worker_state \<Rightarrow> worker_state \<times> bool" where
  "sendAudioToTelegramGroup env filePath st = (emit (AudioSent filePath (send_ok env)) st, send_ok env)"

definition deleteTelegramMessage :: "worker_env \<Rightarrow> nat \<Rightarrow> worker_state \<Rightarrow> worker_state \<times> bool" where
  "deleteTelegramMessage env messageId st =
     (emit (MessageDeleted messageId (delete_ok env)) st, delete_ok env)"

text \<open>\<^verbatim>\<open>fs.unlinkSync\<close> throws when the file is not there, and when the system refuses
  the removal; the flag says whether the system permits it.\<close>

definition unlinkSync :: "bool \<Rightarrow> string \<Rightarrow> worker_state \<Rightarrow> worker_state \<times> bool" where
  "unlinkSync permitted p st =
     (if permitted \<and> p \<in> files st
      then (emit (Unlinked p) (st\<lparr>files := files st - {p}\<rparr>), False)
      else (st, True))"

text \<open>\<^verbatim>\<open>if (notificationMessageId)\<close>: the id is null when the detected notification
  failed, and the number 0 is falsy as well.\<close>

definition truthy :: "nat option \<Rightarrow> bool" where
  "truthy notificationMessageId =
     (case notificationMessageId of None \<Rightarrow> False | Some n \<Rightarrow> n \<noteq> 0)"

subsection \<open>The worker\<close>

text \<open>
  The \<^verbatim>\<open>try\<close> block, lines 272 to 325. The result is the state reached and whether an
  exception left the block. The results of the two helpers are dropped, as in the source
  (\<^verbatim>\<open>await sendAudioToTelegramGroup(caption, filePathMp3);\<close>).
\<close>

definition workerTry :: "worker_env \<Rightarrow> call_data \<Rightarrow> nat option \<Rightarrow> worker_state \<Rightarrow> worker_state \<times> bool" where
  "workerTry env callData notificationMessageId st =
     (let filePath = wavPath env callData
      in case audioUrl callData of
           None \<Rightarrow> (st, True)
         | Some url \<Rightarrow>
             (let st1 = emit (HttpGet url) st
              in if \<not> fetch_ok env then (st1, True)
                 else if \<not> write_ok env then (st1, True)
                 else
                   (let st2 = emit (FileWritten filePath) (st1\<lparr>files := insert filePath (files st1)\<rparr>);
                        filePathMp3 = mp3Path env callData
                    in if \<not> transcode_ok env then (emit FFmpegError st2, True)
                       else
                         (let st3 = emit (Converted filePath filePathMp3)
                                      (st2\<lparr>files := insert filePathMp3 (files st2)\<rparr>)
                          in if \<not> caption_ok env then (st3, True)
                             else
                               (let st4 = fst (sendAudioToTelegramGroup env filePathMp3 st3);
                                    st5 = (if truthy notificationMessageId
                                           then fst (deleteTelegramMessage env
                                                       (the notificationMessageId) st4)
                                           else st4)
                                in case unlinkSync (unlink_raw_ok env) filePath st5 of
                                     (st6, True) \<Rightarrow> (st6, True)
                                   | (st6, False) \<Rightarrow>
                                       (case unlinkSync (unlink_mp3_ok env) filePathMp3 st6 of
                                          (st7, True) \<Rightarrow> (st7, True)
                                        | (st7, False) \<Rightarrow>
                                            (emit TemporaryFilesDeleted st7, False)))))))"

text \<open>The whole function: the \<^verbatim>\<open>catch\<close> block logs the exception. The second component
  of the result says whether an exception leaves the worker.\<close>

definition processCallWorker :: "worker_env \<Rightarrow> call_data \<Rightarrow> nat option \<Rightarrow> worker_state \<Rightarrow> worker_state \<times> bool" where
  "processCallWorker env callData notificationMessageId st =
     (case workerTry env callData notificationMessageId st of
        (st', True) \<Rightarrow> (emit ErrorLogged st', False)
      | (st', False) \<Rightarrow> (st', False))"

text \<open>
  The worker of the file as it stands. The caption is built with \<^verbatim>\<open>escapeMarkdownV2\<close>,
  so its evaluation goes through only if that name is bound; \<open>asShipped\<close> sets
  \<open>caption_ok\<close> accordingly and leaves the rest of the environment as it is.
\<close>

definition asShipped :: "worker_env \<Rightarrow> worker_env" where
  "asShipped env = env\<lparr>caption_ok := (escapeMarkdownV2 \<noteq> None)\<rparr>"



fun isDeletion :: "worker_event \<Rightarrow> bool" where
  "isDeletion (Unlinked p) = True"
| "isDeletion e = False"

subsection \<open>An example call\<close>

definition exampleEnv :: worker_env where
  "exampleEnv =
     \<lparr> now = 1700000000123, dirname = ''/srv/bot'', fetch_ok = True, write_ok = True,
       transcode_ok = True, caption_ok = True, send_ok = True, delete_ok = True,
       unlink_raw_ok = True, unlink_mp3_ok = True \<rparr>"

definition exampleCall :: call_data where
  "exampleCall =
     \<lparr> country = ''UNITED KINGDOM'', number = ''447700900123'', cliNumber = ''447700900999'',
       audioUrl = Some (soundUrl ''8812'' ''c0ffee-01'') \<rparr>"

definition emptyDisk :: worker_state where
  "emptyDisk = \<lparr> files = {}, events = [] \<rparr>"

section \<open>The login loop loginToDashboard\<close>

subsection \<open>Finding the credential fields\<close>

text \<open>The attributes read from each \<^verbatim>\<open>input\<close> element; \<open>None\<close> is the \<^verbatim>\<open>null\<close> that
  \<^verbatim>\<open>getAttribute\<close> returns for a missing attribute.\<close>

record input_attrs =
  attr_type :: "string option"
  attr_placeholder :: "string option"
  attr_name :: "string option"
  attr_id :: "string option"

text \<open>\<^verbatim>\<open>attr && attr.toLowerCase().includes("email")\<close>.\<close>

definition mentionsEmail :: "string option \<Rightarrow> bool" where
  "mentionsEmail attr =
     (case attr of None \<Rightarrow> False | Some a \<Rightarrow> a \<noteq> [] \<and> str_includes (toLowerCase a) ''email'')"

definition isEmailInput :: "input_attrs \<Rightarrow> bool" where
  "isEmailInput attrs =
     (attr_type attrs = Some ''email'' \<or> mentionsEmail (attr_placeholder attrs)
      \<or> mentionsEmail (attr_name attrs) \<or> mentionsEmail (attr_id attrs))"

text \<open>The \<^verbatim>\<open>for (const input of inputs)\<close> loop; a field is the position of its element in
  \<^verbatim>\<open>inputs\<close>, and the second argument is the position of the element at hand.\<close>

fun scanInputs :: "nat option \<times> nat option \<Rightarrow> nat \<Rightarrow> input_attrs list \<Rightarrow> nat option \<times> nat option" where
  "scanInputs (emailField, passField) i [] = (emailField, passField)"
| "scanInputs (emailField, passField) i (attrs # rest) =
     scanInputs
       (if emailField = None \<and> isEmailInput attrs then Some i else emailField,
        if passField = None \<and> attr_type attrs = Some ''password'' then Some i else passField)
       (Suc i) rest"

subsection \<open>One attempt\<close>

text \<open>What one attempt meets: the outcome of each call that can throw, and what the page
  shows.\<close>

record login_page =
  launch_ok :: bool                \<comment> \<open>\<^verbatim>\<open>puppeteer.launch\<close> resolves\<close>
  open_ok :: bool                  \<comment> \<open>\<^verbatim>\<open>newPage\<close>, \<^verbatim>\<open>goto\<close> of the login page and \<^verbatim>\<open>$$("input")\<close> resolve\<close>
  inputs :: "input_attrs list"
  type_ok :: bool                  \<comment> \<open>typing the user name and the password resolves\<close>
  submit_control :: bool           \<comment> \<open>\<^verbatim>\<open>button[type=submit], input[type=submit]\<close> selects an element\<close>
  sign_in_buttons :: nat           \<comment> \<open>number of buttons containing \<^verbatim>\<open>Sign In\<close>\<close>
  click_ok :: bool                 \<comment> \<open>the click resolves\<close>
  current_url :: string            \<comment> \<open>\<^verbatim>\<open>page.url()\<close> after the click\<close>
  content_ok :: bool               \<comment> \<open>\<^verbatim>\<open>page.content()\<close> resolves\<close>
  page_content :: string
  live_ok :: bool                  \<comment> \<open>\<^verbatim>\<open>goto\<close> of the live-calls page and \<^verbatim>\<open>cookies\<close> resolve\<close>
  close_ok :: bool                 \<comment> \<open>\<^verbatim>\<open>browser.close()\<close> resolves\<close>

text \<open>How the \<^verbatim>\<open>try\<close> block of an attempt ends: \<open>LaunchFailed\<close> when the exception came
  before \<^verbatim>\<open>browser\<close> was assigned, \<open>Threw\<close> with the message when it came later, and
  \<open>LoggedIn\<close> at the \<^verbatim>\<open>return { browser, page, cookies }\<close>.\<close>

datatype attempt_result = LaunchFailed | Threw string | LoggedIn

definition attemptLogin :: "login_page \<Rightarrow> attempt_result" where
  "attemptLogin p =
     (if \<not> launch_ok p then LaunchFailed
      else if \<not> open_ok p then Threw ''page''
      else
        (case scanInputs (None, None) 0 (inputs p) of
           (emailField, passField) \<Rightarrow>
             if emailField \<noteq> None \<and> passField \<noteq> None then
               (if \<not> type_ok p then Threw ''type''
                else if submit_control p \<or> sign_in_buttons p > 0 then
                  (if \<not> click_ok p then Threw ''click''
                   else if str_includes (current_url p) ''orangecarrier.com'' then
                     (if \<not> content_ok p then Threw ''content''
                      else if str_includes (page_content p) ''Dashboard''
                              \<or> str_includes (page_content p) ''Account Code'' then
                        (if live_ok p then LoggedIn else Threw ''live calls'')
                      else Threw ''Login failed or dashboard not detected.'')
                   else Threw ''Login failed or dashboard not detected.'')
                else Threw ''Sign In button not found!'')
             else Threw ''Could not detect email or password field!''))"

subsection \<open>The loop\<close>

text \<open>The browsers. Every \<^verbatim>\<open>puppeteer.launch\<close> starts a new browser; the browser of an
  attempt is named by the number of the attempt, which the loop never uses twice.\<close>

datatype browser_event = Launched nat | Closed nat

record browsers =
  open_browsers :: "nat set"
  browser_log :: "browser_event list"

definition noBrowsers :: browsers where
  "noBrowsers = \<lparr> open_browsers = {}, browser_log = [] \<rparr>"

definition launch :: "nat \<Rightarrow> browsers \<Rightarrow> browsers" where
  "launch b st = \<lparr> open_browsers = insert b (open_browsers st),
                   browser_log = browser_log st @ [Launched b] \<rparr>"

definition close :: "nat \<Rightarrow> browsers \<Rightarrow> browsers" where
  "close b st = \<lparr> open_browsers = open_browsers st - {b},
                  browser_log = browser_log st @ [Closed b] \<rparr>"

text \<open>What the caller gets: the session of a browser, \<^verbatim>\<open>null\<close>, or the exception of a
  \<^verbatim>\<open>browser.close()\<close> that failed inside the \<^verbatim>\<open>catch\<close> block.\<close>

datatype login_result = Session nat | Null | Rejected

text \<open>
  \<^verbatim>\<open>while (attempt < maxRetries) { try { ... } catch (err) { attempt++; ... } } return null;\<close>
  The first argument gives the page met by each attempt, the third is \<^verbatim>\<open>attempt\<close>.
\<close>

function loginLoop :: "(nat \<Rightarrow> login_page) \<Rightarrow> nat \<Rightarrow> nat \<Rightarrow> browsers \<Rightarrow> browsers \<times> login_result" where
  "loginLoop pages maxRetries attempt st =
     (if attempt < maxRetries then
        (case attemptLogin (pages attempt) of
           LoggedIn \<Rightarrow> (launch attempt st, Session attempt)
         | LaunchFailed \<Rightarrow>
             (if Suc attempt \<ge> maxRetries then (st, Null)
              else loginLoop pages maxRetries (Suc attempt) st)
         | Threw message \<Rightarrow>
             (if close_ok (pages attempt) then
                (if Suc attempt \<ge> maxRetries then (close attempt (launch attempt st), Null)
                 else loginLoop pages maxRetries (Suc attempt) (close attempt (launch attempt st)))
              else (launch attempt st, Rejected)))
      else (st, Null))"
  by pat_completeness auto
termination
  by (relation "measure (\<lambda>(pages, maxRetries, attempt, st). maxRetries - attempt)") auto

declare loginLoop.simps [simp del]

definition loginToDashboard :: "(nat \<Rightarrow> login_page) \<Rightarrow> nat \<Rightarrow> browsers \<times> login_result" where
  "loginToDashboard pages maxRetries = loginLoop pages maxRetries 0 noBrowsers"

text \<open>A login page on which no password field is found: the attempt throws at
  \<^verbatim>\<open>Could not detect email or password field!\<close>.\<close>

definition pageWithoutPassword :: login_page where
  "pageWithoutPassword =
     \<lparr> launch_ok = True, open_ok = True,
       inputs = [\<lparr> attr_type = Some ''text'', attr_placeholder = Some ''Your Email'',
                   attr_name = None, attr_id = Some ''user'' \<rparr>,
                 \<lparr> attr_type = Some ''text'', attr_placeholder = None,
                   attr_name = Some ''secret'', attr_id = None \<rparr>],
       type_ok = True, submit_control = True, sign_in_buttons = 0, click_ok = True,
       current_url = ''https://www.orangecarrier.com/login'', content_ok = True,
       page_content = ''Sign In'', live_ok = True, close_ok = True \<rparr>"

section \<open>Example rows\<close>

text \<open>Rows of the live-calls table for the same caller line, used to run the model: a call
  with a well-formed play handler, one whose handler has no quoted arguments, a call in
  progress without a play button, and a failed call that still shows a play button.\<close>

definition playableRow :: table_row where
  "playableRow =
     \<lparr> cells = [''UNITED KINGDOM MOBILE 447'', '' 447700900123 '', ''447700900999'', ''17'', ''Answered''],
       button_onclicks = [''Play(\"8812\", \"c0ffee-01\"); return false;''] \<rparr>"

definition malformedRow :: table_row where
  "malformedRow =
     \<lparr> cells = [''UNITED KINGDOM MOBILE 447'', '' 447700900123 '', ''447700900999'', ''17'', ''Answered''],
       button_onclicks = [''Play(8812, 77)''] \<rparr>"

definition ringingRow :: table_row where
  "ringingRow =
     \<lparr> cells = [''UNITED KINGDOM MOBILE 447'', '' 447700900123 '', ''447700900999'', ''0'', ''Ringing''],
       button_onclicks = [] \<rparr>"

definition failedRow :: table_row where
  "failedRow =
     \<lparr> cells = [''UNITED KINGDOM MOBILE 447'', '' 447700900123 '', ''447700900999'', ''0'', '' Failed ''],
       button_onclicks = [''Play(\"8812\", \"c0ffee-01\"); return false;''] \<rparr>"

section \<open>Properties of the string helpers\<close>

subsection \<open>Splitting and joining\<close>

lemma split_by_not_Nil [simp]: "split_by P s \<noteq> []"
  by (induction s) (auto split: list.splits)

lemma join_space_Cons: "ps \<noteq> [] \<Longrightarrow> join_space (p # ps) = p @ CHR '' '' # join_space ps"
  by (cases ps) auto

lemma join_split_by: "join_space (split_by (\<lambda>c. c = CHR '' '') s) = s"
proof (induction s)
  case Nil show ?case by simp
next
  case (Cons c cs)
  obtain p ps where sp: "split_by (\<lambda>c. c = CHR '' '') cs = p # ps"
    by (cases "split_by (\<lambda>c. c = CHR '' '') cs") auto
  show ?case
  proof (cases "c = CHR '' ''")
    case True
    then show ?thesis using Cons by (simp add: join_space_Cons)
  next
    case False
    then show ?thesis using Cons sp by (cases ps) auto
  qed
qed

lemma split_by_chars: "p \<in> set (split_by P s) \<Longrightarrow> set p \<subseteq> set s"
proof (induction s arbitrary: p)
  case Nil then show ?case by simp
next
  case (Cons c cs)
  obtain q qs where sp: "split_by P cs = q # qs"
    by (cases "split_by P cs") auto
  show ?case
  proof (cases "P c")
    case True
    with Cons show ?thesis by auto
  next
    case False
    with Cons.prems sp have "p = c # q \<or> p \<in> set qs" by auto
    then show ?thesis using Cons.IH [of q] Cons.IH [of p] sp by auto
  qed
qed

lemma split_by_no_sep: "\<forall>c\<in>set p. \<not> P c \<Longrightarrow> split_by P p = [p]"
  by (induction p) auto

lemma split_by_cong: "\<forall>c\<in>set s. P c = Q c \<Longrightarrow> split_by P s = split_by Q s"
  by (induction s) auto

text \<open>Splitting at a larger class of separators splits every piece further.\<close>

lemma split_by_refine:
  assumes "\<And>c. Q c \<Longrightarrow> W c"
  shows "split_by W s = concat (map (split_by W) (split_by Q s))"
proof (induction s)
  case Nil show ?case by simp
next
  case (Cons c cs)
  obtain p ps where sp: "split_by Q cs = p # ps"
    by (cases "split_by Q cs") auto
  obtain q qs where sq: "split_by W p = q # qs"
    by (cases "split_by W p") auto
  show ?case
  proof (cases "Q c")
    case True
    then show ?thesis using Cons assms by simp
  next
    case False
    then show ?thesis using Cons sp sq by (cases "W c") auto
  qed
qed

lemma split_by_append:
  "P c \<Longrightarrow> split_by P (a @ c # b) = split_by P a @ split_by P b"
proof (induction a)
  case Nil then show ?case by simp
next
  case (Cons x xs)
  obtain q qs where sq: "split_by P xs = q # qs"
    by (cases "split_by P xs") auto
  show ?case using Cons sq by auto
qed

lemma tokens_drop_left:
  "\<forall>c\<in>set l. P c \<Longrightarrow>
     filter (\<lambda>w. w \<noteq> []) (split_by P (l @ m)) = filter (\<lambda>w. w \<noteq> []) (split_by P m)"
  by (induction l) auto

lemma tokens_all_sep:
  "\<forall>c\<in>set r. P c \<Longrightarrow> filter (\<lambda>w. w \<noteq> []) (split_by P r) = []"
  by (induction r) auto

lemma tokens_drop_right:
  assumes "\<forall>c\<in>set r. P c"
  shows "filter (\<lambda>w. w \<noteq> []) (split_by P (m @ r)) = filter (\<lambda>w. w \<noteq> []) (split_by P m)"
proof (cases r)
  case Nil then show ?thesis by simp
next
  case (Cons c cs)
  with assms have "P c" "\<forall>c\<in>set cs. P c" by auto
  then show ?thesis using Cons by (simp add: split_by_append tokens_all_sep)
qed

subsection \<open>trim\<close>

text \<open>\<open>trim\<close> removes a block of white space at each end and nothing else.\<close>

lemma trim_decomp:
  "\<exists>l r. s = l @ trim s @ r \<and> (\<forall>c\<in>set l. isWhiteSpace c) \<and> (\<forall>c\<in>set r. isWhiteSpace c)"
proof -
  let ?d = "dropWhile isWhiteSpace s"
  have 1: "s = takeWhile isWhiteSpace s @ ?d" by simp
  have "rev ?d = takeWhile isWhiteSpace (rev ?d) @ dropWhile isWhiteSpace (rev ?d)" by simp
  then have "?d = rev (dropWhile isWhiteSpace (rev ?d)) @ rev (takeWhile isWhiteSpace (rev ?d))"
    by (metis rev_append rev_rev_ident)
  then have 2: "?d = trim s @ rev (takeWhile isWhiteSpace (rev ?d))"
    by (simp add: trim_def)
  have 3: "\<forall>c\<in>set (takeWhile isWhiteSpace s). isWhiteSpace c"
    by (auto dest: set_takeWhileD)
  have 4: "\<forall>c\<in>set (rev (takeWhile isWhiteSpace (rev ?d))). isWhiteSpace c"
    by (auto dest: set_takeWhileD)
  from 1 2 have "s = takeWhile isWhiteSpace s @ trim s @ rev (takeWhile isWhiteSpace (rev ?d))"
    by metis
  with 3 4 show ?thesis by blast
qed

lemma trim_chars: "set (trim s) \<subseteq> set s"
  using trim_decomp [of s] by (metis Un_iff set_append subsetI)

lemma trim_ends:
  "trim s = [] \<or> (\<not> isWhiteSpace (hd (trim s)) \<and> \<not> isWhiteSpace (last (trim s)))"
proof (cases "trim s = []")
  case True then show ?thesis by simp
next
  case False
  let ?d = "dropWhile isWhiteSpace s"
  let ?e = "dropWhile isWhiteSpace (rev ?d)"
  from False have e: "?e \<noteq> []" by (simp add: trim_def)
  have d: "?d \<noteq> []"
  proof
    assume a: "?d = []"
    have "?e = dropWhile isWhiteSpace (rev [])" by (simp only: a)
    with e show False by simp
  qed
  have "last (trim s) = hd ?e" using e by (simp add: trim_def last_rev)
  moreover have "\<not> isWhiteSpace (hd ?e)" using e by (rule hd_dropWhile)
  moreover have "hd (trim s) = last ?e" using e by (simp add: trim_def hd_rev)
  moreover have "last ?e = last (rev ?d)"
    using e by (metis last_appendR takeWhile_dropWhile_id)
  moreover have "last (rev ?d) = hd ?d" using d by (simp add: last_rev)
  moreover have "\<not> isWhiteSpace (hd ?d)" using d by (rule hd_dropWhile)
  ultimately show ?thesis by simp
qed

lemma trim_fixed:
  assumes "s = [] \<or> (\<not> isWhiteSpace (hd s) \<and> \<not> isWhiteSpace (last s))"
  shows "trim s = s"
proof (cases "s = []")
  case True then show ?thesis by (simp add: trim_def)
next
  case False
  with assms have h: "\<not> isWhiteSpace (hd s)" and l: "\<not> isWhiteSpace (last s)" by auto
  from False h have 1: "dropWhile isWhiteSpace s = s" by (cases s) auto
  from False l have 2: "dropWhile isWhiteSpace (rev s) = rev s"
    by (cases "rev s") (auto simp: hd_rev [symmetric])
  show ?thesis by (simp add: trim_def 1 2)
qed

lemma trim_idem: "trim (trim s) = trim s"
  by (rule trim_fixed) (rule trim_ends)

lemma whitespace_tokens_trim: "whitespace_tokens (trim s) = whitespace_tokens s"
proof -
  obtain l r where d: "s = l @ trim s @ r"
      and l: "\<forall>c\<in>set l. isWhiteSpace c" and r: "\<forall>c\<in>set r. isWhiteSpace c"
    using trim_decomp by blast
  have "whitespace_tokens s = filter (\<lambda>w. w \<noteq> []) (split_by isWhiteSpace (l @ trim s @ r))"
    using d by (simp add: whitespace_tokens_def)
  also have "\<dots> = filter (\<lambda>w. w \<noteq> []) (split_by isWhiteSpace (trim s @ r))"
    using l by (rule tokens_drop_left)
  also have "\<dots> = filter (\<lambda>w. w \<noteq> []) (split_by isWhiteSpace (trim s))"
    using r by (rule tokens_drop_right)
  finally show ?thesis by (simp add: whitespace_tokens_def)
qed

subsection \<open>The loop of extractCountryFromTermination\<close>

lemma collect_takeWhile:
  "collectCountryParts acc ps = acc @ takeWhile (\<lambda>p. \<not> isStopPart p) ps"
  by (induction ps arbitrary: acc) auto

lemma extract_takeWhile:
  "extractCountryFromTermination text =
     (let accepted = takeWhile (\<lambda>part. \<not> isStopPart part) (split_space text)
      in if accepted = [] then text else join_space accepted)"
  by (simp add: extractCountryFromTermination_def collect_takeWhile Let_def)

lemma ws_upper: "isWhiteSpace c \<Longrightarrow> toUpperChar c = c"
  by (auto simp: isWhiteSpace_def toUpperChar_def)

lemma keyword_no_whitespace:
  assumes "toUpperCase p \<in> set [''MOBILE'', ''FIXED'']"
  shows "p \<noteq> [] \<and> (\<forall>c\<in>set p. \<not> isWhiteSpace c)"
proof
  show "p \<noteq> []" using assms by (auto simp: toUpperCase_def)
  show "\<forall>c\<in>set p. \<not> isWhiteSpace c"
  proof
    fix c assume c: "c \<in> set p"
    show "\<not> isWhiteSpace c"
    proof
      assume w: "isWhiteSpace c"
      from c have "toUpperChar c \<in> set (toUpperCase p)" by (simp add: toUpperCase_def)
      with w have "c \<in> set (toUpperCase p)" by (simp add: ws_upper)
      with assms have "c \<in> set ''MOBILE'' \<or> c \<in> set ''FIXED''" by auto
      with w show False by (auto simp: isWhiteSpace_def)
    qed
  qed
qed

text \<open>A piece between two spaces that holds no white space is one of the white-space
  tokens.\<close>

lemma space_part_is_token:
  assumes "p \<in> set (split_space s)" and "p \<noteq> []" and "\<forall>c\<in>set p. \<not> isWhiteSpace c"
  shows "p \<in> set (whitespace_tokens s)"
proof -
  have "split_by isWhiteSpace s = concat (map (split_by isWhiteSpace) (split_space s))"
    unfolding split_space_def by (rule split_by_refine) (simp add: isWhiteSpace_def)
  moreover have "split_by isWhiteSpace p = [p]" using assms(3) by (rule split_by_no_sep)
  ultimately have "p \<in> set (split_by isWhiteSpace s)" using assms(1) by force
  with assms(2) show ?thesis by (simp add: whitespace_tokens_def)
qed

lemma no_stop_part:
  assumes "\<not> list_ex isDigit text"
    and "\<forall>tok\<in>set (whitespace_tokens text). toUpperCase tok \<notin> set [''MOBILE'', ''FIXED'']"
    and "p \<in> set (split_space (trim text))"
  shows "\<not> isStopPart p"
proof
  assume "isStopPart p"
  then consider (kw) "toUpperCase p \<in> set [''MOBILE'', ''FIXED'']" | (dg) "list_ex isDigit p"
    by (auto simp: isStopPart_def)
  then show False
  proof cases
    case kw
    then have "p \<noteq> []" "\<forall>c\<in>set p. \<not> isWhiteSpace c"
      using keyword_no_whitespace by blast+
    with assms(3) have "p \<in> set (whitespace_tokens (trim text))"
      by (simp add: space_part_is_token)
    then have "p \<in> set (whitespace_tokens text)" by (simp add: whitespace_tokens_trim)
    with assms(2) kw show False by blast
  next
    case dg
    then obtain c where "c \<in> set p" "isDigit c" by (auto simp: list_ex_iff)
    moreover have "set p \<subseteq> set (trim text)"
      using assms(3) unfolding split_space_def by (rule split_by_chars)
    ultimately have "c \<in> set text" using trim_chars by blast
    with \<open>isDigit c\<close> assms(1) show False by (auto simp: list_ex_iff)
  qed
qed

lemma extract_no_stop:
  assumes "\<forall>p\<in>set (split_space s). \<not> isStopPart p"
  shows "extractCountryFromTermination s = s"
proof -
  have t: "takeWhile (\<lambda>part. \<not> isStopPart part) (split_space s) = split_space s"
    using assms by (simp add: takeWhile_eq_all_conv)
  have n: "split_space s \<noteq> []" by (simp add: split_space_def)
  have j: "join_space (split_space s) = s" by (simp add: split_space_def join_split_by)
  show ?thesis unfolding extract_takeWhile Let_def t using n j by simp
qed

subsection \<open>Country extraction on text without digits and keywords\<close>

text \<open>
  Claim C8. Country extraction is idempotent on every input string that contains no digit
  and no token equal, case-insensitively, to MOBILE or FIXED: the output equals the
  trimmed input. The tokens of the hypothesis are the white-space-separated tokens of the
  input; the country of the row is \<open>countryOfColumn\<close>, and applying the extraction (with
  or without the trimming of the call site) to its output changes nothing.
\<close>

theorem country_extraction_idempotent:
  assumes "\<not> list_ex isDigit text"
    and "\<forall>tok\<in>set (whitespace_tokens text). toUpperCase tok \<notin> set [''MOBILE'', ''FIXED'']"
  shows "countryOfColumn text = trim text
       \<and> countryOfColumn (countryOfColumn text) = countryOfColumn text
       \<and> extractCountryFromTermination (countryOfColumn text) = countryOfColumn text"
proof -
  have "\<forall>p\<in>set (split_space (trim text)). \<not> isStopPart p"
    using assms no_stop_part by blast
  then have e: "extractCountryFromTermination (trim text) = trim text"
    by (rule extract_no_stop)
  then show ?thesis by (simp add: countryOfColumn_def trim_idem)
qed

theorem country_extraction_idempotent_witness:
  "\<not> list_ex isDigit '' South Africa '' \<and> countryOfColumn '' South Africa '' = ''South Africa''"
proof -
  have d: "\<not> list_ex isDigit '' South Africa ''" by (simp add: isDigit_def)
  have t: "\<forall>tok\<in>set (whitespace_tokens '' South Africa '').
             toUpperCase tok \<notin> set [''MOBILE'', ''FIXED'']"
    by code_simp
  have r: "trim '' South Africa '' = ''South Africa''" by (simp add: trim_def isWhiteSpace_def)
  from country_extraction_idempotent [OF d t]
  have "countryOfColumn '' South Africa '' = trim '' South Africa ''" by (rule conjunct1)
  then have "countryOfColumn '' South Africa '' = ''South Africa''" by (simp only: r)
  with d show ?thesis by (rule conjI)
qed

subsection \<open>Which tokens country extraction works on\<close>

lemma single_spaced_tokens:
  assumes "\<forall>c\<in>set s. isWhiteSpace c \<longrightarrow> c = CHR '' ''" and "[] \<notin> set (split_space s)"
  shows "whitespace_tokens s = split_space s"
proof -
  have "\<forall>c\<in>set s. isWhiteSpace c = (c = CHR '' '')"
    using assms(1) by (auto simp: isWhiteSpace_def)
  then have "split_by isWhiteSpace s = split_space s"
    unfolding split_space_def by (rule split_by_cong)
  then show ?thesis using assms(2) by (auto simp: whitespace_tokens_def filter_id_conv)
qed

lemma country_of_empty: "extractCountryFromTermination [] = [] \<and> country_extraction_spec [] = []"
  by (simp add: extractCountryFromTermination_def country_extraction_spec_def split_space_def
      whitespace_tokens_def isStopPart_def toUpperCase_def trim_def)

text \<open>
  Claim C6, as the specification words it, is the equation
  \<open>countryOfColumn text = country_extraction_spec text\<close> for every text. It fails where
  two tokens are separated by something other than one space. The program splits at every
  single space and at nothing else: a tab between KINGDOM and MOBILE leaves one piece
  \<open>KINGDOM<TAB>MOBILE\<close>, which is not a stop token, so the extraction runs on to the digits;
  and between two adjacent spaces there is an empty piece, which is accepted and joined
  back, so the run of spaces survives.
\<close>

theorem country_extraction_whitespace_counterexample:
  "countryOfColumn (''UNITED KINGDOM'' @ [CHR 0x09] @ ''MOBILE 07123'')
     = ''UNITED KINGDOM'' @ [CHR 0x09] @ ''MOBILE''
   \<and> country_extraction_spec (''UNITED KINGDOM'' @ [CHR 0x09] @ ''MOBILE 07123'')
       = ''UNITED KINGDOM''
   \<and> countryOfColumn ''UNITED  KINGDOM MOBILE 07123'' = ''UNITED  KINGDOM''
   \<and> country_extraction_spec ''UNITED  KINGDOM MOBILE 07123'' = ''UNITED KINGDOM''"
  by code_simp

text \<open>
  Claim C6, amended. Country extraction takes the pieces of the trimmed text between
  single space characters (an empty piece between two adjacent spaces is a token, and
  other white space does not separate), up to the first piece that equals MOBILE or FIXED
  case-insensitively or contains a digit; it joins the accepted pieces with single spaces
  and falls back to the whole trimmed text when no piece was accepted. Where the trimmed
  text has no white space other than single spaces between its tokens, this is the rule of
  the specification; and \<open>UNITED KINGDOM MOBILE 07123\<close> yields \<open>UNITED KINGDOM\<close>.
\<close>

theorem country_extraction_space_tokens:
  "countryOfColumn text =
     (let accepted = takeWhile (\<lambda>part. \<not> isStopPart part) (split_space (trim text))
      in if accepted = [] then trim text else join_space accepted)
   \<and> ((\<forall>c\<in>set (trim text). isWhiteSpace c \<longrightarrow> c = CHR '' '')
        \<and> (trim text = [] \<or> [] \<notin> set (split_space (trim text)))
      \<longrightarrow> countryOfColumn text = country_extraction_spec text)
   \<and> countryOfColumn ''UNITED KINGDOM MOBILE 07123'' = ''UNITED KINGDOM''"
proof (intro conjI impI)
  show c: "countryOfColumn text =
     (let accepted = takeWhile (\<lambda>part. \<not> isStopPart part) (split_space (trim text))
      in if accepted = [] then trim text else join_space accepted)"
    unfolding countryOfColumn_def by (rule extract_takeWhile)
  show "countryOfColumn ''UNITED KINGDOM MOBILE 07123'' = ''UNITED KINGDOM''"
    by code_simp
  assume a: "(\<forall>c\<in>set (trim text). isWhiteSpace c \<longrightarrow> c = CHR '' '')
        \<and> (trim text = [] \<or> [] \<notin> set (split_space (trim text)))"
  show "countryOfColumn text = country_extraction_spec text"
  proof (cases "trim text = []")
    case True
    have "country_extraction_spec text = country_extraction_spec (trim text)"
      by (simp add: country_extraction_spec_def whitespace_tokens_trim trim_idem Let_def)
    then show ?thesis using True country_of_empty by (simp add: countryOfColumn_def)
  next
    case False
    with a have "whitespace_tokens (trim text) = split_space (trim text)"
      by (simp add: single_spaced_tokens)
    then have "whitespace_tokens text = split_space (trim text)"
      by (simp add: whitespace_tokens_trim)
    then show ?thesis by (simp add: c country_extraction_spec_def)
  qed
qed

theorem country_extraction_space_tokens_witness:
  "list_all (\<lambda>c. isWhiteSpace c \<longrightarrow> c = CHR '' '') (trim '' Ivory Coast FIXED 225 '')
   \<and> [] \<notin> set (split_space (trim '' Ivory Coast FIXED 225 ''))
   \<and> countryOfColumn '' Ivory Coast FIXED 225 '' = ''Ivory Coast''
   \<and> country_extraction_spec '' Ivory Coast FIXED 225 '' = ''Ivory Coast''"
proof -
  have h: "(\<forall>c\<in>set (trim '' Ivory Coast FIXED 225 ''). isWhiteSpace c \<longrightarrow> c = CHR '' '')
        \<and> (trim '' Ivory Coast FIXED 225 '' = []
            \<or> [] \<notin> set (split_space (trim '' Ivory Coast FIXED 225 '')))"
    by code_simp
  have v: "countryOfColumn '' Ivory Coast FIXED 225 '' = ''Ivory Coast''"
    by code_simp
  from country_extraction_space_tokens [of "'' Ivory Coast FIXED 225 ''"] h
  have "countryOfColumn '' Ivory Coast FIXED 225 ''
          = country_extraction_spec '' Ivory Coast FIXED 225 ''"
    by blast
  with v have "country_extraction_spec '' Ivory Coast FIXED 225 '' = ''Ivory Coast''" by simp
  moreover have "[] \<notin> set (split_space (trim '' Ivory Coast FIXED 225 ''))" by code_simp
  moreover have "list_all (\<lambda>c. isWhiteSpace c \<longrightarrow> c = CHR '' '')
                   (trim '' Ivory Coast FIXED 225 '')"
    using h by (simp add: list_all_iff)
  ultimately show ?thesis using v by blast
qed

subsection \<open>maskNumber\<close>

lemma maskNumber_ends:
  "maskNumber x = [] \<or> (\<not> isWhiteSpace (hd (maskNumber x)) \<and> \<not> isWhiteSpace (last (maskNumber x)))"
proof (cases "length (trim x) > 7")
  case False
  then show ?thesis using trim_ends [of x] by (simp add: maskNumber_def)
next
  case True
  let ?n = "trim x"
  from True have ne: "?n \<noteq> []" by auto
  with trim_ends [of x] have h: "\<not> isWhiteSpace (hd ?n)" and l: "\<not> isWhiteSpace (last ?n)"
    by auto
  have m: "maskNumber x = take 3 ?n @ ''***'' @ drop (length ?n - 4) ?n"
    using True by (simp add: maskNumber_def Let_def)
  have "hd (maskNumber x) = hd ?n" using True ne by (simp add: m hd_append)
  moreover have "length ?n - 4 < length ?n" using True by arith
  then have "last (maskNumber x) = last ?n" by (simp add: m)
  ultimately show ?thesis using h l by simp
qed

text \<open>
  Claim C7, as the specification words it, says that an input of length at most 7 is
  returned unchanged and a longer one is cut to its first 3 and last 4 characters. Both
  parts fail on an input with surrounding white space, which the function trims first.
\<close>

theorem maskNumber_untrimmed_counterexample:
  "length '' 123'' \<le> 7 \<and> maskNumber '' 123'' \<noteq> '' 123''
   \<and> length '' 1234567'' > 7
   \<and> maskNumber '' 1234567''
       \<noteq> take 3 '' 1234567'' @ ''***'' @ drop (length '' 1234567'' - 4) '' 1234567''"
  by (simp add: maskNumber_def trim_def isWhiteSpace_def)

text \<open>
  Claim C7, amended. Number masking works on the trimmed input: a trimmed text of length
  at most 7 is returned as it is, a longer one as its first 3 characters, \<open>***\<close> and its
  last 4 characters. So an input without surrounding white space is returned unchanged
  when its length is at most 7 and masked in that way when it is longer; and
  \<open>12345678901\<close> gives \<open>123***8901\<close>.
\<close>

theorem maskNumber_on_trimmed:
  "maskNumber num =
     (if length (trim num) \<le> 7 then trim num
      else take 3 (trim num) @ ''***'' @ drop (length (trim num) - 4) (trim num))
   \<and> (trim num = num \<and> length num \<le> 7 \<longrightarrow> maskNumber num = num)
   \<and> (trim num = num \<and> length num > 7
        \<longrightarrow> maskNumber num = take 3 num @ ''***'' @ drop (length num - 4) num)
   \<and> maskNumber ''12345678901'' = ''123***8901''"
proof (intro conjI impI)
  show "maskNumber ''12345678901'' = ''123***8901''"
    by (simp add: maskNumber_def trim_def isWhiteSpace_def)
qed (auto simp: maskNumber_def Let_def)

theorem maskNumber_on_trimmed_witness:
  "trim ''4915123'' = ''4915123'' \<and> maskNumber ''4915123'' = ''4915123''
   \<and> trim ''4915123456'' = ''4915123456'' \<and> maskNumber ''4915123456'' = ''491***3456''"
proof -
  have a: "trim ''4915123'' = ''4915123'' \<and> length ''4915123'' \<le> 7"
    by (simp add: trim_def isWhiteSpace_def)
  have b: "trim ''4915123456'' = ''4915123456'' \<and> length ''4915123456'' > 7"
    by (simp add: trim_def isWhiteSpace_def)
  from maskNumber_on_trimmed [of "''4915123''"] a
  have 1: "maskNumber ''4915123'' = ''4915123''" by blast
  from maskNumber_on_trimmed [of "''4915123456''"] b
  have "maskNumber ''4915123456''
          = take 3 ''4915123456'' @ ''***'' @ drop (length ''4915123456'' - 4) ''4915123456''"
    by blast
  then have 2: "maskNumber ''4915123456'' = ''491***3456''" by simp
  from a b 1 2 show ?thesis by blast
qed

text \<open>
  Claim C10. \<open>maskNumber\<close> trims its argument before the length check and the masking:
  \<open>maskNumber x\<close> equals \<open>maskNumber (trim x)\<close>, its result has no leading or trailing
  white space (trimming it again changes nothing: it is empty or begins and ends with a
  character that is not white space), and an input whose trimmed length is at most 7 is
  returned trimmed, which is not the input when that had surrounding white space.
\<close>

theorem maskNumber_trims_first:
  "maskNumber x = maskNumber (trim x)
   \<and> trim (maskNumber x) = maskNumber x
   \<and> (maskNumber x = []
       \<or> (\<not> isWhiteSpace (hd (maskNumber x)) \<and> \<not> isWhiteSpace (last (maskNumber x))))
   \<and> (length (trim x) \<le> 7 \<longrightarrow> maskNumber x = trim x)
   \<and> maskNumber '' 42 '' = ''42'' \<and> maskNumber '' 42 '' \<noteq> '' 42 ''"
proof (intro conjI impI)
  show "maskNumber x = maskNumber (trim x)" by (simp add: maskNumber_def trim_idem)
  show e: "maskNumber x = []
       \<or> (\<not> isWhiteSpace (hd (maskNumber x)) \<and> \<not> isWhiteSpace (last (maskNumber x)))"
    by (rule maskNumber_ends)
  then show "trim (maskNumber x) = maskNumber x" by (rule trim_fixed)
  show "maskNumber '' 42 '' = ''42''" by (simp add: maskNumber_def trim_def isWhiteSpace_def)
  show "maskNumber '' 42 '' \<noteq> '' 42 ''" by (simp add: maskNumber_def trim_def isWhiteSpace_def)
  assume "length (trim x) \<le> 7"
  then show "maskNumber x = trim x" by (simp add: maskNumber_def)
qed

theorem maskNumber_trims_first_witness:
  "length (trim ''  0049 15 '') \<le> 7 \<and> maskNumber ''  0049 15 '' = ''0049 15''"
proof -
  have l: "length (trim ''  0049 15 '') \<le> 7" by (simp add: trim_def isWhiteSpace_def)
  have t: "trim ''  0049 15 '' = ''0049 15''" by (simp add: trim_def isWhiteSpace_def)
  from maskNumber_trims_first [of "''  0049 15 ''"] l
  have "maskNumber ''  0049 15 '' = trim ''  0049 15 ''" by blast
  then have "maskNumber ''  0049 15 '' = ''0049 15''" by (simp only: t)
  with l show ?thesis by (rule conjI)
qed

section \<open>Properties of the polling loop\<close>

subsection \<open>The store only grows\<close>

lemma rowCallback_store_mono:
  "processedCalls st \<subseteq> processedCalls (fst (rowCallback throws row st))"
  by (auto simp: rowCallback_def dispatchCall_def Let_def split: option.splits)

lemma eachRow_store_mono: "processedCalls st \<subseteq> processedCalls (fst (eachRow rows st))"
proof (induction rows arbitrary: st)
  case Nil show ?case by simp
next
  case (Cons r rows)
  obtain row throws where r: "r = (row, throws)" by (cases r)
  obtain st' threw where c: "rowCallback throws row st = (st', threw)"
    by (cases "rowCallback throws row st")
  have 1: "processedCalls st \<subseteq> processedCalls st'"
    using rowCallback_store_mono [of st throws row] c by simp
  show ?case
  proof (cases threw)
    case True
    then show ?thesis using r c 1 by simp
  next
    case False
    then show ?thesis using r c 1 Cons.IH [of st'] by auto
  qed
qed

lemma tick_store: "processedCalls (tick page st) = processedCalls (fst (case page of
    ContentFails \<Rightarrow> (st, True) | PageRows rows \<Rightarrow> eachRow rows st))"
  by (simp add: tick_def split: tick_input.splits prod.splits bool.splits)

lemma tick_store_mono: "processedCalls st \<subseteq> processedCalls (tick page st)"
  unfolding tick_store using eachRow_store_mono by (cases page) auto

lemma monitor_store_mono: "processedCalls st \<subseteq> processedCalls (monitor ticks st)"
proof (induction ticks arbitrary: st)
  case Nil show ?case by simp
next
  case (Cons page ticks)
  have "processedCalls st \<subseteq> processedCalls (tick page st)" by (rule tick_store_mono)
  also have "\<dots> \<subseteq> processedCalls (monitor ticks (tick page st))" by (rule Cons.IH)
  finally show ?case by simp
qed

subsection \<open>Every dispatched key is in the store, and is dispatched once\<close>

lemma rowCallData_cli [simp]: "cliNumber (rowCallData row) = rowCliNumber row"
  by (simp add: rowCallData_def)

lemma rowCallback_once:
  assumes "dispatchedOnce st"
  shows "dispatchedOnce (fst (rowCallback throws row st))"
proof (cases "length (cells row) > 2 \<and> rowCliNumber row \<notin> processedCalls st")
  case False
  then show ?thesis using assms by (auto simp: rowCallback_def Let_def)
next
  case True
  then have new: "rowCliNumber row \<notin> set (map dispatchedCli (dispatched st))"
    using assms by (auto simp: dispatchedOnce_def)
  show ?thesis
    using True new assms
    by (auto simp: rowCallback_def dispatchCall_def dispatchedOnce_def Let_def
        split: option.splits)
qed

lemma eachRow_once: "dispatchedOnce st \<Longrightarrow> dispatchedOnce (fst (eachRow rows st))"
proof (induction rows arbitrary: st)
  case Nil then show ?case by simp
next
  case (Cons r rows)
  obtain row throws where r: "r = (row, throws)" by (cases r)
  obtain st' threw where c: "rowCallback throws row st = (st', threw)"
    by (cases "rowCallback throws row st")
  have 1: "dispatchedOnce st'"
    using rowCallback_once [OF Cons.prems, of throws row] c by simp
  show ?case
  proof (cases threw)
    case True
    then show ?thesis using r c 1 by simp
  next
    case False
    then show ?thesis using r c Cons.IH [OF 1] by simp
  qed
qed

lemma dispatchedOnce_slept [simp]: "dispatchedOnce (st\<lparr>slept := x\<rparr>) = dispatchedOnce st"
  by (simp add: dispatchedOnce_def)

lemma tick_once: "dispatchedOnce st \<Longrightarrow> dispatchedOnce (tick page st)"
proof (cases page)
  case ContentFails
  assume "dispatchedOnce st"
  then show ?thesis using ContentFails by (simp add: tick_def)
next
  case (PageRows rows)
  assume "dispatchedOnce st"
  then have "dispatchedOnce (fst (eachRow rows st))" by (rule eachRow_once)
  then show ?thesis using PageRows
    by (cases "eachRow rows st") (auto simp: tick_def split: bool.splits)
qed

lemma monitor_once: "dispatchedOnce st \<Longrightarrow> dispatchedOnce (monitor ticks st)"
  by (induction ticks arbitrary: st) (auto simp: tick_once)

lemma distinct_keys_at_most_one:
  "distinct (map f xs) \<Longrightarrow> length (filter (\<lambda>x. f x = k) xs) \<le> 1"
proof (induction xs)
  case Nil then show ?case by simp
next
  case (Cons x xs)
  show ?case
  proof (cases "f x = k")
    case True
    with Cons.prems have "\<forall>y\<in>set xs. f y \<noteq> k" by (metis distinct.simps(2) image_eqI list.simps(9) set_map)
    then have "filter (\<lambda>x. f x = k) xs = []" by (simp add: filter_empty_conv)
    with True show ?thesis by simp
  next
    case False
    with Cons show ?thesis by simp
  qed
qed

lemma rowCallback_marks:
  "length (cells row) > 2 \<Longrightarrow> rowCliNumber row \<in> processedCalls (fst (rowCallback throws row st))"
  by (auto simp: rowCallback_def dispatchCall_def Let_def split: option.splits)

text \<open>The callback touches \<open>dispatched\<close> only after it has put the key into the store: a
  row whose key is in the store is not dispatched, whatever it holds.\<close>

lemma rowCallback_seen:
  "rowCliNumber row \<in> processedCalls st \<Longrightarrow> rowCallback throws row st = (st, False)"
  by (simp add: rowCallback_def Let_def)

text \<open>
  Claim C1. Once a cli_number is in the store, it is in the store after any further
  ticks, so every later seen-check is true. In a run from the empty store, whatever rows
  the ticks show and whichever dispatches throw, each cli_number is dispatched at most
  once (counting the detected notification with its chained audio worker, and the failed
  notification, together), and every dispatched cli_number is in the store. The callback
  puts the key of a row into the store before it dispatches: after the callback the key
  is in the store also when the dispatch threw, and a row whose key is in the store
  causes no dispatch.
\<close>

theorem dedup_at_most_once:
  "(cli \<in> processedCalls st \<longrightarrow> cli \<in> processedCalls (monitor ticks st))
   \<and> length (filter (\<lambda>d. dispatchedCli d = cli) (dispatched (monitor ticks initialPoller))) \<le> 1
   \<and> (\<forall>d\<in>set (dispatched (monitor ticks initialPoller)).
         dispatchedCli d \<in> processedCalls (monitor ticks initialPoller))
   \<and> (length (cells row) > 2
        \<longrightarrow> rowCliNumber row \<in> processedCalls (fst (rowCallback throws row st)))
   \<and> (rowCliNumber row \<in> processedCalls st
        \<longrightarrow> dispatched (fst (rowCallback throws row st)) = dispatched st)"
proof -
  have "dispatchedOnce initialPoller" by (simp add: dispatchedOnce_def initialPoller_def)
  then have once: "dispatchedOnce (monitor ticks initialPoller)" by (rule monitor_once)
  have 1: "cli \<in> processedCalls st \<longrightarrow> cli \<in> processedCalls (monitor ticks st)"
    using monitor_store_mono [of st ticks] by auto
  have 2: "length (filter (\<lambda>d. dispatchedCli d = cli)
                   (dispatched (monitor ticks initialPoller))) \<le> 1"
    using once unfolding dispatchedOnce_def by (blast intro: distinct_keys_at_most_one)
  have 3: "\<forall>d\<in>set (dispatched (monitor ticks initialPoller)).
         dispatchedCli d \<in> processedCalls (monitor ticks initialPoller)"
    using once by (auto simp: dispatchedOnce_def)
  have 4: "length (cells row) > 2
        \<longrightarrow> rowCliNumber row \<in> processedCalls (fst (rowCallback throws row st))"
    by (simp add: rowCallback_marks)
  have 5: "rowCliNumber row \<in> processedCalls st
        \<longrightarrow> dispatched (fst (rowCallback throws row st)) = dispatched st"
    by (simp add: rowCallback_seen)
  from 1 2 3 4 5 show ?thesis by blast
qed

theorem dedup_at_most_once_witness:
  "''447700900999'' \<in> processedCalls (initialPoller\<lparr>processedCalls := {''447700900999''}\<rparr>)
   \<and> length (cells playableRow) > 2
   \<and> rowCliNumber playableRow = ''447700900999''
   \<and> ''447700900999'' \<in> processedCalls
        (monitor [PageRows [(playableRow, True)], PageRows [(playableRow, False)]]
           (initialPoller\<lparr>processedCalls := {''447700900999''}\<rparr>))
   \<and> length (filter (\<lambda>d. dispatchedCli d = ''447700900999'')
        (dispatched (monitor [PageRows [(playableRow, True)], PageRows [(playableRow, False)]]
           initialPoller))) \<le> 1
   \<and> dispatched (fst (rowCallback True playableRow
        (initialPoller\<lparr>processedCalls := {''447700900999''}\<rparr>))) = []
   \<and> dispatched (monitor [PageRows [(playableRow, True)], PageRows [(playableRow, False)]]
           initialPoller)
       = [InstantNotification
            \<lparr> country = ''UNITED KINGDOM'', number = ''447700900123'',
              cliNumber = ''447700900999'',
              audioUrl = Some ''https://www.orangecarrier.com/live/calls/sound?did=8812&uuid=c0ffee-01'' \<rparr>]"
proof -
  let ?st = "initialPoller\<lparr>processedCalls := {''447700900999''}\<rparr>"
  let ?ticks = "[PageRows [(playableRow, True)], PageRows [(playableRow, False)]]"
  have a: "''447700900999'' \<in> processedCalls ?st" by simp
  have b: "length (cells playableRow) > 2" by (simp add: playableRow_def)
  have c: "rowCliNumber playableRow = ''447700900999''"
    by (simp add: rowCliNumber_def playableRow_def trim_def isWhiteSpace_def)
  have d: "dispatched ?st = []" by (simp add: initialPoller_def)
  note t = dedup_at_most_once [of "''447700900999''" ?st ?ticks playableRow True]
  from t a have 1: "''447700900999'' \<in> processedCalls (monitor ?ticks ?st)" by blast
  from t have 2: "length (filter (\<lambda>d. dispatchedCli d = ''447700900999'')
        (dispatched (monitor ?ticks initialPoller))) \<le> 1" by blast
  from t a c have "dispatched (fst (rowCallback True playableRow ?st)) = dispatched ?st"
    by simp
  with d have 3: "dispatched (fst (rowCallback True playableRow ?st)) = []" by simp
  have 4: "dispatched (monitor ?ticks initialPoller)
       = [InstantNotification
            \<lparr> country = ''UNITED KINGDOM'', number = ''447700900123'',
              cliNumber = ''447700900999'',
              audioUrl = Some ''https://www.orangecarrier.com/live/calls/sound?did=8812&uuid=c0ffee-01'' \<rparr>]"
    by code_simp
  from a b c 1 2 3 4 show ?thesis by blast
qed

subsection \<open>A play button whose handler does not match\<close>

text \<open>
  Claim C2. For a row not yet in the store that has a play control and whose status is
  not FAILED: if the handler of the play control does not match the pattern with the two
  quoted arguments, the callback dispatches nothing (no detected notification, hence no
  audio worker, which only that dispatch starts) and throws nothing, and the cli_number of
  the row is in the store afterwards.
\<close>

theorem unmatched_handler_marks_without_dispatch:
  assumes "length (cells row) > 2"
    and "rowCliNumber row \<notin> processedCalls st"
    and "playButton row \<noteq> []"
    and "callStatus row \<noteq> ''FAILED''"
    and "matchPlay (hd (playButton row)) = None"
  shows "rowCallback throws row st
           = (st\<lparr>processedCalls := insert (rowCliNumber row) (processedCalls st)\<rparr>, False)
       \<and> dispatched (fst (rowCallback throws row st)) = dispatched st
       \<and> rowCliNumber row \<in> processedCalls (fst (rowCallback throws row st))"
  using assms by (simp add: rowCallback_def Let_def)

theorem unmatched_handler_marks_without_dispatch_witness:
  "length (cells malformedRow) > 2
   \<and> rowCliNumber malformedRow \<notin> processedCalls initialPoller
   \<and> playButton malformedRow \<noteq> []
   \<and> callStatus malformedRow \<noteq> ''FAILED''
   \<and> matchPlay (hd (playButton malformedRow)) = None
   \<and> rowCallback True malformedRow initialPoller
        = (initialPoller\<lparr>processedCalls := {''447700900999''}\<rparr>, False)"
proof -
  have a: "length (cells malformedRow) > 2" by (simp add: malformedRow_def)
  have b: "rowCliNumber malformedRow \<notin> processedCalls initialPoller"
    by (simp add: initialPoller_def)
  have c: "playButton malformedRow \<noteq> []"
    by (simp add: playButton_def malformedRow_def startsWith_def)
  have d: "callStatus malformedRow \<noteq> ''FAILED''" by code_simp
  have e: "matchPlay (hd (playButton malformedRow)) = None" by code_simp
  have f: "rowCliNumber malformedRow = ''447700900999''"
    by (simp add: rowCliNumber_def malformedRow_def trim_def isWhiteSpace_def)
  from unmatched_handler_marks_without_dispatch [OF a b c d e, of True]
  have "rowCallback True malformedRow initialPoller
          = (initialPoller\<lparr>processedCalls :=
               insert (rowCliNumber malformedRow) (processedCalls initialPoller)\<rparr>, False)"
    by (rule conjunct1)
  then have "rowCallback True malformedRow initialPoller
          = (initialPoller\<lparr>processedCalls := {''447700900999''}\<rparr>, False)"
    by (simp add: f initialPoller_def)
  with a b c d e show ?thesis by blast
qed

subsection \<open>Failed calls\<close>

text \<open>
  Claim C3 says of every parsed row with status FAILED that no audio worker is started for
  it and that the failed-call notification is sent instead. The second half fails for a
  row whose cli_number is already in the store: the line was first seen while the call was
  in progress, without a play button, and stored then; when the row later shows FAILED,
  nothing is dispatched, in this tick or in any other.
\<close>

theorem failed_row_already_seen_counterexample:
  "length (cells failedRow) > 2 \<and> callStatus failedRow = ''FAILED''
   \<and> dispatched (monitor [PageRows [(ringingRow, False)], PageRows [(failedRow, False)],
                           PageRows [(failedRow, False)]] initialPoller) = []"
  by code_simp

lemma failed_call_notification_makes_no_request:
  "sendFailedCallNotification callData = ([], True)"
  by (simp add: sendFailedCallNotification_def escapeMarkdownV2_def)

text \<open>
  Claim C3, amended. For every parsed row (more than two cells) whose status text equals
  FAILED case-insensitively after trimming, with or without a play control, the callback
  never makes the call of the detected notification with its audio worker; when the
  cli_number of the row is not yet in the store, the one call it makes for the row is
  \<^verbatim>\<open>sendFailedCallNotification(callData)\<close>, and when the cli_number is in the store it
  makes no call. The statement is about the call; that a message goes out is not part of
  it (\<open>failed_call_notification_makes_no_request\<close>: in the file as it stands the call
  throws on \<^verbatim>\<open>escapeMarkdownV2\<close> before it makes a request).
\<close>

theorem failed_row_dispatch:
  assumes "length (cells row) > 2" and "callStatus row = ''FAILED''"
  shows "dispatched (fst (rowCallback throws row st))
           = (if rowCliNumber row \<in> processedCalls st then dispatched st
              else dispatched st @ [FailedCallNotification (rowCallData row)])
       \<and> (\<forall>callData. InstantNotification callData \<in> set (dispatched (fst (rowCallback throws row st)))
             \<longrightarrow> InstantNotification callData \<in> set (dispatched st))"
  using assms by (simp add: rowCallback_def dispatchCall_def Let_def)

theorem failed_row_dispatch_witness:
  "length (cells failedRow) > 2 \<and> callStatus failedRow = ''FAILED''
   \<and> playButton failedRow \<noteq> []
   \<and> dispatched (fst (rowCallback False failedRow initialPoller))
       = [FailedCallNotification
            \<lparr> country = ''UNITED KINGDOM'', number = ''447700900123'',
              cliNumber = ''447700900999'', audioUrl = None \<rparr>]"
proof -
  have a: "length (cells failedRow) > 2" by (simp add: failedRow_def)
  have b: "callStatus failedRow = ''FAILED''" by code_simp
  have c: "playButton failedRow \<noteq> []"
    by (simp add: playButton_def failedRow_def startsWith_def)
  have d: "rowCliNumber failedRow \<notin> processedCalls initialPoller"
    by (simp add: initialPoller_def)
  have e: "rowCallData failedRow
             = \<lparr> country = ''UNITED KINGDOM'', number = ''447700900123'',
                 cliNumber = ''447700900999'', audioUrl = None \<rparr>"
    by code_simp
  from failed_row_dispatch [OF a b, of False initialPoller] d
  have "dispatched (fst (rowCallback False failedRow initialPoller))
          = dispatched initialPoller @ [FailedCallNotification (rowCallData failedRow)]"
    by simp
  then have "dispatched (fst (rowCallback False failedRow initialPoller))
          = [FailedCallNotification
            \<lparr> country = ''UNITED KINGDOM'', number = ''447700900123'',
              cliNumber = ''447700900999'', audioUrl = None \<rparr>]"
    by (simp add: e initialPoller_def)
  with a b c show ?thesis by blast
qed

section \<open>Properties of the audio worker\<close>

subsection \<open>The two temporary files are different files\<close>

lemma str_includes_suffix: "str_includes (a @ b) b"
proof (induction a)
  case Nil show ?case by (cases b) (simp_all add: startsWith_def)
next
  case (Cons x a) then show ?case by simp
qed

lemma replaceFirst_wav_changes:
  "str_includes s ''.wav'' \<Longrightarrow> replaceFirst ''.wav'' ''.mp3'' s \<noteq> s"
proof (induction s)
  case Nil then show ?case by simp
next
  case (Cons c cs)
  show ?case
  proof (cases "startsWith (c # cs) ''.wav''")
    case True
    define d where "d = drop 4 (c # cs)"
    have l: "length ''.wav'' = 4" by simp
    from True have t: "take 4 (c # cs) = ''.wav''" unfolding startsWith_def l .
    have "take 4 (c # cs) @ drop 4 (c # cs) = c # cs" by (rule append_take_drop_id)
    then have e: "c # cs = ''.wav'' @ d" unfolding t d_def by (rule sym)
    have rf: "replaceFirst ''.wav'' ''.mp3'' (c # cs) = ''.mp3'' @ d"
      using True unfolding d_def by (simp only: replaceFirst.simps if_True l)
    show ?thesis
    proof
      assume "replaceFirst ''.wav'' ''.mp3'' (c # cs) = c # cs"
      with rf have "''.mp3'' @ d = c # cs" by (rule subst)
      also note e
      finally show False by simp
    qed
  next
    case False
    with Cons show ?thesis by simp
  qed
qed

lemma mp3Path_differs: "mp3Path env callData \<noteq> wavPath env callData"
proof -
  have "wavPath env callData
          = (dirname env @ ''/'' @ ''call_'' @ decimal (now env) @ ''_'' @ cliNumber callData)
            @ ''.wav''"
    by (simp add: wavPath_def)
  then have "str_includes (wavPath env callData) ''.wav''"
    by (simp only: str_includes_suffix)
  then show ?thesis unfolding mp3Path_def by (rule replaceFirst_wav_changes)
qed

subsection \<open>The runs of the worker, by the first step that throws\<close>

lemma worker_without_url:
  "audioUrl callData = None \<Longrightarrow>
     processCallWorker env callData mid st = (emit ErrorLogged st, False)"
  by (simp add: processCallWorker_def workerTry_def)

lemma worker_fetch_fails:
  "audioUrl callData = Some url \<Longrightarrow> \<not> fetch_ok env \<Longrightarrow>
     processCallWorker env callData mid st = (emit ErrorLogged (emit (HttpGet url) st), False)"
  by (simp add: processCallWorker_def workerTry_def)

lemma worker_write_fails:
  "audioUrl callData = Some url \<Longrightarrow> fetch_ok env \<Longrightarrow> \<not> write_ok env \<Longrightarrow>
     processCallWorker env callData mid st = (emit ErrorLogged (emit (HttpGet url) st), False)"
  by (simp add: processCallWorker_def workerTry_def)

lemma worker_transcode_fails:
  assumes "audioUrl callData = Some url" "fetch_ok env" "write_ok env" "\<not> transcode_ok env"
  shows "processCallWorker env callData mid st
           = (\<lparr> files = insert (wavPath env callData) (files st),
                events = events st @ [HttpGet url, FileWritten (wavPath env callData),
                                      FFmpegError, ErrorLogged] \<rparr>, False)"
  using assms by (simp add: processCallWorker_def workerTry_def emit_def Let_def)

lemma worker_caption_fails:
  assumes "audioUrl callData = Some url" "fetch_ok env" "write_ok env" "transcode_ok env"
    and "\<not> caption_ok env"
  shows "processCallWorker env callData mid st
           = (\<lparr> files = insert (mp3Path env callData) (insert (wavPath env callData) (files st)),
                events = events st @ [HttpGet url, FileWritten (wavPath env callData),
                           Converted (wavPath env callData) (mp3Path env callData),
                           ErrorLogged] \<rparr>, False)"
  using assms by (simp add: processCallWorker_def workerTry_def emit_def Let_def)

text \<open>The run in an environment where the caption is built and the files may be removed.
  The results of the delivery and of the retraction are in the events and change nothing
  in what follows them.\<close>

lemma worker_reaches_delivery:
  assumes "audioUrl callData = Some url" "fetch_ok env" "write_ok env" "transcode_ok env"
    and "caption_ok env" and "unlink_raw_ok env" "unlink_mp3_ok env"
  shows "processCallWorker env callData mid st
           = (\<lparr> files = files st - {wavPath env callData, mp3Path env callData},
                events = events st @ [HttpGet url, FileWritten (wavPath env callData),
                           Converted (wavPath env callData) (mp3Path env callData),
                           AudioSent (mp3Path env callData) (send_ok env)]
                         @ (if truthy mid then [MessageDeleted (the mid) (delete_ok env)] else [])
                         @ [Unlinked (wavPath env callData), Unlinked (mp3Path env callData),
                            TemporaryFilesDeleted] \<rparr>, False)"
proof -
  have s: "insert (mp3Path env callData) (insert (wavPath env callData) (files st))
             - {wavPath env callData} - {mp3Path env callData}
           = files st - {wavPath env callData, mp3Path env callData}"
    by blast
  show ?thesis
    using assms mp3Path_differs [of env callData]
    by (simp add: processCallWorker_def workerTry_def emit_def Let_def unlinkSync_def
        sendAudioToTelegramGroup_def deleteTelegramMessage_def s)
qed

lemma worker_cases:
  obtains (nourl) "audioUrl callData = None"
  | (ffail) url where "audioUrl callData = Some url" "\<not> fetch_ok env"
  | (wfail) url where "audioUrl callData = Some url" "fetch_ok env" "\<not> write_ok env"
  | (tfail) url where "audioUrl callData = Some url" "fetch_ok env" "write_ok env"
      "\<not> transcode_ok env"
  | (cfail) url where "audioUrl callData = Some url" "fetch_ok env" "write_ok env"
      "transcode_ok env" "\<not> caption_ok env"
  | (reach) url where "audioUrl callData = Some url" "fetch_ok env" "write_ok env"
      "transcode_ok env" "caption_ok env"
  by (cases "audioUrl callData") auto


text \<open>A deletion in the log of the worker, not there before, means that the \<^verbatim>\<open>try\<close> block
  came as far as its \<^verbatim>\<open>unlinkSync\<close> calls.\<close>

lemma worker_deletion_only_at_end:
  assumes "Unlinked p \<in> set (events (fst (processCallWorker env callData mid st)))"
    and "Unlinked p \<notin> set (events st)"
  shows "fetch_ok env \<and> write_ok env \<and> transcode_ok env \<and> caption_ok env"
proof (cases rule: worker_cases [where callData = callData and env = env])
  case nourl
  then show ?thesis using assms by (simp add: worker_without_url emit_def)
next
  case (ffail url)
  then show ?thesis using assms by (simp add: worker_fetch_fails emit_def)
next
  case (wfail url)
  then show ?thesis using assms by (simp add: worker_write_fails emit_def)
next
  case (tfail url)
  then show ?thesis using assms by (simp add: worker_transcode_fails)
next
  case (cfail url)
  then show ?thesis using assms by (simp add: worker_caption_fails)
next
  case (reach url)
  then show ?thesis by simp
qed

subsection \<open>The example call\<close>

lemma example_url:
  "audioUrl exampleCall = Some ''https://www.orangecarrier.com/live/calls/sound?did=8812&uuid=c0ffee-01''"
  by (simp add: exampleCall_def soundUrl_def)

lemma example_wavPath:
  "wavPath (exampleEnv\<lparr>transcode_ok := t, send_ok := s\<rparr>) exampleCall
     = ''/srv/bot/call_1700000000123_447700900999.wav''"
  by (simp add: wavPath_def exampleEnv_def exampleCall_def)


subsection \<open>Which failures abort the pipeline\<close>

lemma asShipped_fields [simp]:
  "fetch_ok (asShipped env) = fetch_ok env"
  "write_ok (asShipped env) = write_ok env"
  "transcode_ok (asShipped env) = transcode_ok env"
  "send_ok (asShipped env) = send_ok env"
  "\<not> caption_ok (asShipped env)"
  "wavPath (asShipped env) callData = wavPath env callData"
  "mp3Path (asShipped env) callData = mp3Path env callData"
  by (simp_all add: asShipped_def escapeMarkdownV2_def wavPath_def mp3Path_def)




subsection \<open>The raw recording after a failed conversion\<close>

text \<open>
  Claim C9. If the conversion fails after the raw recording was written, the worker ends
  with the raw file still on disk: all it does after the failure is to log the error
  twice (in the error handler of ffmpeg and in the \<^verbatim>\<open>catch\<close> block), and it deletes
  neither file. A file is deleted by the worker only when the \<^verbatim>\<open>try\<close> block gets as far
  as its \<^verbatim>\<open>unlinkSync\<close> calls, that is when the request, the writing, the conversion and
  the construction of the caption all went through without an exception.
\<close>

theorem raw_file_left_after_failed_conversion:
  "(audioUrl callData = Some url \<and> fetch_ok env \<and> write_ok env \<and> \<not> transcode_ok env
      \<longrightarrow> wavPath env callData \<in> files (fst (processCallWorker env callData mid st))
          \<and> events (fst (processCallWorker env callData mid st))
              = events st @ [HttpGet url, FileWritten (wavPath env callData),
                             FFmpegError, ErrorLogged]
          \<and> \<not> list_ex isDeletion [HttpGet url, FileWritten (wavPath env callData),
                                    FFmpegError, ErrorLogged])
   \<and> (Unlinked p \<in> set (events (fst (processCallWorker env callData mid st)))
        \<and> Unlinked p \<notin> set (events st)
      \<longrightarrow> fetch_ok env \<and> write_ok env \<and> transcode_ok env \<and> caption_ok env)"
proof (intro conjI impI)
  assume a: "audioUrl callData = Some url \<and> fetch_ok env \<and> write_ok env \<and> \<not> transcode_ok env"
  then show "wavPath env callData \<in> files (fst (processCallWorker env callData mid st))"
    by (simp add: worker_transcode_fails)
  from a show "events (fst (processCallWorker env callData mid st))
              = events st @ [HttpGet url, FileWritten (wavPath env callData),
                             FFmpegError, ErrorLogged]"
    by (simp add: worker_transcode_fails)
  show "\<not> list_ex isDeletion [HttpGet url, FileWritten (wavPath env callData),
                              FFmpegError, ErrorLogged]"
    by simp
next
  assume "Unlinked p \<in> set (events (fst (processCallWorker env callData mid st)))
        \<and> Unlinked p \<notin> set (events st)"
  then have u: "Unlinked p \<in> set (events (fst (processCallWorker env callData mid st)))"
    and n: "Unlinked p \<notin> set (events st)" by blast+
  from worker_deletion_only_at_end [OF u n]
  show "fetch_ok env" "write_ok env" "transcode_ok env" "caption_ok env" by blast+
qed

theorem raw_file_left_after_failed_conversion_witness:
  "\<not> transcode_ok (exampleEnv\<lparr>transcode_ok := False, send_ok := True\<rparr>)
   \<and> ''/srv/bot/call_1700000000123_447700900999.wav''
       \<in> files (fst (processCallWorker (exampleEnv\<lparr>transcode_ok := False, send_ok := True\<rparr>)
                       exampleCall (Some 5) emptyDisk))
   \<and> Unlinked ''/srv/bot/call_1700000000123_447700900999.wav''
       \<in> set (events (fst (processCallWorker (exampleEnv\<lparr>transcode_ok := True, send_ok := True\<rparr>)
                       exampleCall (Some 5) emptyDisk)))
   \<and> caption_ok (exampleEnv\<lparr>transcode_ok := True, send_ok := True\<rparr>)"
proof -
  let ?bad = "exampleEnv\<lparr>transcode_ok := False, send_ok := True\<rparr>"
  let ?env = "exampleEnv\<lparr>transcode_ok := True, send_ok := True\<rparr>"
  let ?url = "''https://www.orangecarrier.com/live/calls/sound?did=8812&uuid=c0ffee-01''"
  let ?wav = "''/srv/bot/call_1700000000123_447700900999.wav''"
  have b: "audioUrl exampleCall = Some ?url \<and> fetch_ok ?bad \<and> write_ok ?bad
             \<and> \<not> transcode_ok ?bad"
    by (simp add: example_url exampleEnv_def)
  from raw_file_left_after_failed_conversion [of exampleCall ?url ?bad "Some 5" emptyDisk] b
  have "wavPath ?bad exampleCall \<in> files (fst (processCallWorker ?bad exampleCall (Some 5) emptyDisk))"
    by blast
  then have 1: "?wav \<in> files (fst (processCallWorker ?bad exampleCall (Some 5) emptyDisk))"
    by (simp only: example_wavPath)
  have ok: "fetch_ok ?env" "write_ok ?env" "transcode_ok ?env" "caption_ok ?env"
    "unlink_raw_ok ?env" "unlink_mp3_ok ?env"
    by (simp_all add: exampleEnv_def)
  have u: "Unlinked ?wav \<in> set (events (fst (processCallWorker ?env exampleCall (Some 5) emptyDisk)))"
    by (simp add: worker_reaches_delivery [OF example_url ok] example_wavPath)
  have n: "Unlinked ?wav \<notin> set (events emptyDisk)" by (simp add: emptyDisk_def)
  from raw_file_left_after_failed_conversion [of exampleCall ?url ?env "Some 5" emptyDisk ?wav] u n
  have 2: "caption_ok ?env" by blast
  from b 1 u 2 show ?thesis by blast
qed

section \<open>Properties of the login loop\<close>

text \<open>What the browsers of the attempts \<open>a\<close> to \<open>n - 1\<close> leave in the log when none of
  these attempts logs in.\<close>

lemma loginLoop_all_fail:
  "(\<forall>i. a \<le> i \<and> i < n \<longrightarrow> attemptLogin (pages i) \<noteq> LoggedIn \<and> close_ok (pages i)) \<Longrightarrow>
     snd (loginLoop pages n a st) = Null
     \<and> open_browsers (fst (loginLoop pages n a st)) \<subseteq> open_browsers st
     \<and> browser_log (fst (loginLoop pages n a st))
         = browser_log st
           @ concat (map (\<lambda>i. case attemptLogin (pages i) of
                                 LaunchFailed \<Rightarrow> [] | _ \<Rightarrow> [Launched i, Closed i]) [a..<n])"
proof (induction pages n a st rule: loginLoop.induct)
  case (1 pages n a st)
  show ?case
  proof (cases "a < n")
    case False
    then show ?thesis by (simp add: loginLoop.simps)
  next
    case True
    then have upt: "[a..<n] = a # [Suc a..<n]" by (simp add: upt_conv_Cons)
    from True "1.prems" have here: "attemptLogin (pages a) \<noteq> LoggedIn" "close_ok (pages a)"
      by auto
    from "1.prems" have later: "\<forall>i. Suc a \<le> i \<and> i < n \<longrightarrow>
        attemptLogin (pages i) \<noteq> LoggedIn \<and> close_ok (pages i)"
      by auto
    show ?thesis
    proof (cases "attemptLogin (pages a)")
      case LoggedIn
      with here show ?thesis by simp
    next
      case LaunchFailed
      show ?thesis
      proof (cases "n \<le> Suc a")
        case True
        with \<open>a < n\<close> LaunchFailed show ?thesis by (simp add: loginLoop.simps [of pages n a] upt)
      next
        case False
        with "1.IH"(1) [OF \<open>a < n\<close> LaunchFailed _ later] \<open>a < n\<close> LaunchFailed
        show ?thesis by (simp add: loginLoop.simps [of pages n a] upt)
      qed
    next
      case (Threw message)
      show ?thesis
      proof (cases "n \<le> Suc a")
        case True
        with \<open>a < n\<close> Threw here show ?thesis
          by (auto simp: loginLoop.simps [of pages n a] upt launch_def close_def)
      next
        case False
        with "1.IH"(2) [OF \<open>a < n\<close> Threw here(2) _ later] \<open>a < n\<close> Threw here
        show ?thesis
          by (auto simp: loginLoop.simps [of pages n a] upt launch_def close_def)
      qed
    qed
  qed
qed

lemma missing_field_fails:
  "fst (scanInputs (None, None) 0 (inputs p)) = None
     \<or> snd (scanInputs (None, None) 0 (inputs p)) = None \<Longrightarrow> attemptLogin p \<noteq> LoggedIn"
  by (auto simp: attemptLogin_def split: prod.splits)

text \<open>
  Claim C5, as the specification words it, holds of every run in which all attempts fail.
  It fails when \<^verbatim>\<open>browser.close()\<close> rejects: the call stands in the \<^verbatim>\<open>catch\<close> block
  without a guard of its own, so its exception leaves \<open>loginToDashboard\<close>. In the run
  below the first attempt finds no password field and its browser cannot be closed: the
  function does not return null, browser 0 stays open, and there is no second attempt.
\<close>

theorem login_close_fails_counterexample:
  "attemptLogin (pageWithoutPassword\<lparr>close_ok := False\<rparr>)
     = Threw ''Could not detect email or password field!''
   \<and> loginToDashboard (\<lambda>i. pageWithoutPassword\<lparr>close_ok := False\<rparr>) 2
       = (\<lparr> open_browsers = {0}, browser_log = [Launched 0] \<rparr>, Rejected)"
proof -
  have s: "scanInputs (None, None) 0 (inputs pageWithoutPassword) = (Some 0, None)"
    by code_simp
  have t: "attemptLogin (pageWithoutPassword\<lparr>close_ok := False\<rparr>)
             = Threw ''Could not detect email or password field!''"
    by (simp add: attemptLogin_def s pageWithoutPassword_def)
  have "loginToDashboard (\<lambda>i. pageWithoutPassword\<lparr>close_ok := False\<rparr>) 2
       = (\<lparr> open_browsers = {0}, browser_log = [Launched 0] \<rparr>, Rejected)"
    by (simp add: loginToDashboard_def loginLoop.simps [of _ 2 0] t launch_def noBrowsers_def)
  with t show ?thesis by (rule conjI)
qed

text \<open>
  Claim C5, amended. When none of the \<open>maxRetries\<close> attempts logs in (as when the
  credential fields are not found) and every \<^verbatim>\<open>browser.close()\<close> of a failed attempt
  succeeds, \<open>loginToDashboard\<close> returns null and no browser is left open: every attempt
  that launched a browser closed it before the next attempt began, and every attempt
  launched a browser of its own. This holds for every \<open>maxRetries\<close>, and \<^verbatim>\<open>main\<close> calls
  the function with 2.
\<close>

theorem login_null_after_failed_attempts:
  assumes "\<forall>i<maxRetries. attemptLogin (pages i) \<noteq> LoggedIn \<and> close_ok (pages i)"
  shows "snd (loginToDashboard pages maxRetries) = Null
       \<and> open_browsers (fst (loginToDashboard pages maxRetries)) = {}
       \<and> browser_log (fst (loginToDashboard pages maxRetries))
           = concat (map (\<lambda>i. case attemptLogin (pages i) of
                                 LaunchFailed \<Rightarrow> [] | _ \<Rightarrow> [Launched i, Closed i])
                         [0..<maxRetries])
       \<and> (fst (scanInputs (None, None) 0 (inputs p)) = None
            \<or> snd (scanInputs (None, None) 0 (inputs p)) = None
          \<longrightarrow> attemptLogin p \<noteq> LoggedIn)"
proof -
  from assms have "\<forall>i. 0 \<le> i \<and> i < maxRetries \<longrightarrow>
      attemptLogin (pages i) \<noteq> LoggedIn \<and> close_ok (pages i)" by simp
  from loginLoop_all_fail [OF this, of noBrowsers]
  show ?thesis using missing_field_fails [of p]
    by (simp add: loginToDashboard_def noBrowsers_def)
qed

theorem login_null_after_failed_attempts_witness:
  "snd (scanInputs (None, None) 0 (inputs pageWithoutPassword)) = None
   \<and> attemptLogin pageWithoutPassword = Threw ''Could not detect email or password field!''
   \<and> loginToDashboard (\<lambda>i. pageWithoutPassword) 2
       = (\<lparr> open_browsers = {},
            browser_log = [Launched 0, Closed 0, Launched 1, Closed 1] \<rparr>, Null)"
proof -
  have s: "scanInputs (None, None) 0 (inputs pageWithoutPassword) = (Some 0, None)"
    by code_simp
  have m: "snd (scanInputs (None, None) 0 (inputs pageWithoutPassword)) = None"
    by (simp add: s)
  have t: "attemptLogin pageWithoutPassword = Threw ''Could not detect email or password field!''"
    by (simp add: attemptLogin_def s pageWithoutPassword_def)
  have c: "close_ok pageWithoutPassword" by (simp add: pageWithoutPassword_def)
  have h: "\<forall>i<2. attemptLogin ((\<lambda>i. pageWithoutPassword) i) \<noteq> LoggedIn
             \<and> close_ok ((\<lambda>i. pageWithoutPassword) i)"
    by (simp add: t c)
  have u: "[0..<2] = [0, Suc 0]" by (simp add: upt_rec numeral_2_eq_2)
  from login_null_after_failed_attempts [OF h, of pageWithoutPassword]
  have "snd (loginToDashboard (\<lambda>i. pageWithoutPassword) 2) = Null
      \<and> open_browsers (fst (loginToDashboard (\<lambda>i. pageWithoutPassword) 2)) = {}
      \<and> browser_log (fst (loginToDashboard (\<lambda>i. pageWithoutPassword) 2))
           = [Launched 0, Closed 0, Launched 1, Closed 1]"
    by (simp add: t u)
  then have "loginToDashboard (\<lambda>i. pageWithoutPassword) 2
       = (\<lparr> open_browsers = {},
            browser_log = [Launched 0, Closed 0, Launched 1, Closed 1] \<rparr>, Null)"
    by (cases "loginToDashboard (\<lambda>i. pageWithoutPassword) 2") auto
  with m t show ?thesis by blast
qed

end
